theory Spec2Isabelle
  imports Main
begin

section \<open>HTTP CONNECT proxy negotiation (proxy/http.c)\<close>

text \<open>
  A shallow embedding of \<^verbatim>\<open>proxy/http.c\<close>: the line reader \<^verbatim>\<open>read_line\<close>, the
  header tokenizer (\<^verbatim>\<open>get_token\<close>, \<^verbatim>\<open>get_separator\<close>) and the coroutine
  \<^verbatim>\<open>proxy_http_process_queue\<close>.  Byte buffers (\<^verbatim>\<open>strbuf\<close>, \<^verbatim>\<open>bufchain\<close>) are
  \<^typ>\<open>string\<close>s, mutation is explicit state passing, and a call that never returns
  has the value \<^term>\<open>None\<close>.
\<close>

subsection \<open>Bytes and C strings\<close>

abbreviation LF :: char where "LF \<equiv> CHR 0x0A"
abbreviation CR :: char where "CR \<equiv> CHR 0x0D"
abbreviation TAB :: char where "TAB \<equiv> CHR 0x09"
abbreviation NUL :: char where "NUL \<equiv> CHR 0x00"

definition CRLF :: string where
  "CRLF = [CR, LF]"

text \<open>
  A \<^verbatim>\<open>strbuf\<close> may hold any byte, but the C library functions the code hands
  \<^verbatim>\<open>buf->s\<close> to (\<^verbatim>\<open>sscanf\<close>, \<^verbatim>\<open>stricmp\<close>, \<^verbatim>\<open>strtoumax\<close>, \<^verbatim>\<open>%s\<close>, \<^verbatim>\<open>put_dataz\<close>) read it
  as a C string: the bytes before the first NUL.
\<close>

definition c_str :: "string \<Rightarrow> string" where
  "c_str s = takeWhile (\<lambda>c. c \<noteq> NUL) s"

text \<open>\<^verbatim>\<open>isspace\<close>, \<^verbatim>\<open>isdigit\<close> and \<^verbatim>\<open>tolower\<close> of the C locale.\<close>

definition isspace :: "char \<Rightarrow> bool" where
  "isspace c = (c = CHR '' '' \<or> c = TAB \<or> c = LF \<or> c = CHR 0x0B \<or> c = CHR 0x0C \<or> c = CR)"

definition isdigit :: "char \<Rightarrow> bool" where
  "isdigit c = ((48::nat) \<le> of_char c \<and> of_char c \<le> (57::nat))"

definition tolower :: "char \<Rightarrow> char" where
  "tolower c =
     (if (65::nat) \<le> of_char c \<and> of_char c \<le> (90::nat)
      then ''abcdefghijklmnopqrstuvwxyz'' ! (of_char c - 65) else c)"

text \<open>
  Modelled from the spec: \<^verbatim>\<open>stricmp\<close> (not in this file) compares two C strings
  "case-insensitively".  The callers only test the result against zero, so the model
  returns 0 for equal and 1 otherwise.
\<close>

definition stricmp :: "string \<Rightarrow> string \<Rightarrow> int" where
  "stricmp a b = (if map tolower (c_str a) = map tolower (c_str b) then 0 else 1)"

text \<open>The value of a run of decimal digits, most significant first.\<close>

definition digit_val :: "char \<Rightarrow> nat" where
  "digit_val c = of_char c - 48"

definition digits_val :: "string \<Rightarrow> nat" where
  "digits_val ds = foldl (\<lambda>acc c. 10 * acc + digit_val c) 0 ds"

text \<open>\<^verbatim>\<open>%d\<close> of \<^verbatim>\<open>printf\<close>: the decimal rendering of an \<^verbatim>\<open>int\<close>.\<close>

fun dec_digits :: "nat \<Rightarrow> string" where
  "dec_digits n =
     (if n < 10 then [''0123456789'' ! n]
      else dec_digits (n div 10) @ [''0123456789'' ! (n mod 10)])"

definition format_int :: "int \<Rightarrow> string" where
  "format_int i = (if i < 0 then CHR ''-'' # dec_digits (nat (- i)) else dec_digits (nat i))"

subsection \<open>Buffers\<close>

text \<open>
  Modelled from the spec: \<^verbatim>\<open>strbuf_chomp\<close> (PuTTY's utils, not in this file) removes
  one trailing byte if it is the given one: "trailing \<^verbatim>\<open>\n\<close> then trailing \<^verbatim>\<open>\r\<close>
  (at most one of each) are stripped".
\<close>

definition strbuf_chomp :: "string \<Rightarrow> char \<Rightarrow> string" where
  "strbuf_chomp buf char_to_remove =
     (if length buf > 0 \<and> buf ! (length buf - 1) = char_to_remove
      then take (length buf - 1) buf else buf)"

text \<open>
  Modelled from the spec: \<^verbatim>\<open>bufchain_try_consume\<close> (not in this file) consumes
  exactly \<^verbatim>\<open>len\<close> bytes if that many are available, and otherwise consumes nothing
  and reports failure.
\<close>

definition bufchain_try_consume :: "string \<Rightarrow> nat \<Rightarrow> bool \<times> string" where
  "bufchain_try_consume input len =
     (if len \<le> length input then (True, drop len input) else (False, input))"

subsection \<open>The line reader\<close>

text \<open>
  \<^verbatim>\<open>read_line(input, output, is_header)\<close>, lines 10--42.  The result is the returned
  flag, the remaining input and the updated output buffer.  \<^verbatim>\<open>bufchain_try_fetch\<close>
  peeks at the first byte without consuming it; only the \<^verbatim>\<open>else\<close> branch calls
  \<^verbatim>\<open>bufchain_consume\<close>.  The \<^verbatim>\<open>while\<close> loop is the recursion, so a loop that never
  exits is \<^term>\<open>None\<close>.
\<close>

partial_function (option) read_line ::
  "string \<Rightarrow> string \<Rightarrow> bool \<Rightarrow> (bool \<times> string \<times> string) option"
where
  "read_line input output is_header =
     (case input of
        [] \<Rightarrow> Some (False, input, output)
      | c # rest \<Rightarrow>
          if is_header \<and> length output > 0 \<and> output ! (length output - 1) = LF then
            (if c \<noteq> CHR '' '' \<and> c \<noteq> TAB
             then Some (True, input, strbuf_chomp (strbuf_chomp output LF) CR)
             else read_line input output is_header)
          else
            (let output' = output @ [c] in
             if \<not> is_header \<and> length output' > 0 \<and> output' ! (length output' - 1) = LF
             then Some (True, rest, strbuf_chomp (strbuf_chomp output' LF) CR)
             else read_line rest output' is_header))"

declare read_line.simps [code]

subsection \<open>The negotiator's state\<close>

text \<open>\<^verbatim>\<open>prompts_t\<close> and its \<^verbatim>\<open>prompt_t\<close> entries, as far as this file uses them.\<close>

record prompt_t =
  prompt :: string
  echo :: bool
  result :: string

record prompts_t =
  to_server :: bool
  from_server :: bool
  name :: string
  prompts_list :: "prompt_t list"

text \<open>
  What \<^verbatim>\<open>seat_get_userpass_input\<close> answers on one call: a negative value (not yet),
  zero (the user cancelled) or a positive value, after filling in the prompts' results.
\<close>

datatype seat_reply = Pending | Cancelled | Answered "string list"

text \<open>
  \<^verbatim>\<open>struct HttpProxyNegotiator\<close> (lines 44--57), with the fields of the embedded
  \<^verbatim>\<open>ProxyNegotiator pn\<close> that the file reads or writes (prefixed \<open>pn_\<close>).
  \<^verbatim>\<open>crLine\<close> is the source line the coroutine resumes at; 0 is the beginning.
\<close>

record HttpProxyNegotiator =
  crLine :: int
  response :: string
  header :: string
  token :: string
  http_status_pos :: int
  header_pos :: nat
  username :: string
  password :: string
  http_status :: int
  connection_close :: bool
  tried_no_auth :: bool
  try_auth_from_conf :: bool
  prompts :: "prompts_t option"
  username_prompt_index :: int
  password_prompt_index :: int
  content_length :: nat
  pn_input :: string
  pn_output :: string
  pn_error :: "string option"
  pn_aborted :: bool
  pn_done :: bool
  pn_itr :: bool

text \<open>The \<^verbatim>\<open>ProxySocket\<close> behind \<^verbatim>\<open>pn->ps\<close>: configuration and destination.\<close>

record ProxySocket =
  conf_proxy_username :: string
  conf_proxy_password :: string
  remote_addr :: string
  remote_port :: int

text \<open>\<^verbatim>\<open>proxy_http_new\<close> (lines 59--70): everything zero, the buffers empty.\<close>

definition proxy_http_new :: "bool \<Rightarrow> HttpProxyNegotiator" where
  "proxy_http_new itr =
     \<lparr> crLine = 0, response = [], header = [], token = [], http_status_pos = 0,
       header_pos = 0, username = [], password = [], http_status = 0,
       connection_close = False, tried_no_auth = False, try_auth_from_conf = False,
       prompts = None, username_prompt_index = 0, password_prompt_index = 0,
       content_length = 0, pn_input = [], pn_output = [], pn_error = None,
       pn_aborted = False, pn_done = False, pn_itr = itr \<rparr>"

subsection \<open>The header tokenizer\<close>

text \<open>\<^verbatim>\<open>enum HttpHeader\<close>, from \<^verbatim>\<open>HTTP_HEADER_LIST\<close> (lines 85--96).\<close>

datatype HttpHeader = HDR_CONNECTION | HDR_CONTENT_LENGTH | HDR_PROXY_AUTHENTICATE | HDR_UNKNOWN

definition is_whitespace :: "char \<Rightarrow> bool" where
  "is_whitespace c = (c = CHR '' '' \<or> c = TAB \<or> c = LF)"

definition is_separator :: "char \<Rightarrow> bool" where
  "is_separator c =
     (c = CHR ''('' \<or> c = CHR '')'' \<or> c = CHR ''<'' \<or> c = CHR ''>'' \<or> c = CHR ''@'' \<or>
      c = CHR '','' \<or> c = CHR '';'' \<or> c = CHR '':'' \<or> c = CHR 0x5C \<or> c = CHR 0x22 \<or>
      c = CHR ''/'' \<or> c = CHR ''['' \<or> c = CHR '']'' \<or> c = CHR ''?'' \<or> c = CHR ''='' \<or>
      c = CHR ''{'' \<or> c = CHR ''}'')"

text \<open>
  The loop \<^verbatim>\<open>while (pos < len && is_whitespace(s[pos])) pos++\<close> of lines 117 and 140.
\<close>

function skip_whitespace :: "string \<Rightarrow> nat \<Rightarrow> nat" where
  "skip_whitespace hs pos =
     (if pos < length hs \<and> is_whitespace (hs ! pos) then skip_whitespace hs (pos + 1) else pos)"
  by pat_completeness auto
termination
  by (relation "measure (\<lambda>(hs, pos). length hs - pos)") auto

declare skip_whitespace.simps [simp del]

text \<open>The loop of lines 127--130, which copies the token's bytes.\<close>

function copy_token :: "string \<Rightarrow> nat \<Rightarrow> string \<Rightarrow> string \<times> nat" where
  "copy_token hs pos tok =
     (if pos < length hs \<and> \<not> is_whitespace (hs ! pos) \<and> \<not> is_separator (hs ! pos)
      then copy_token hs (pos + 1) (tok @ [hs ! pos]) else (tok, pos))"
  by pat_completeness auto
termination
  by (relation "measure (\<lambda>(hs, pos, tok). length hs - pos)") auto

declare copy_token.simps [simp del]

text \<open>
  \<^verbatim>\<open>get_token\<close> (lines 113--134) and \<^verbatim>\<open>get_separator\<close> (lines 136--151): the returned
  flag and the updated negotiator.  \<^verbatim>\<open>header_pos\<close> never exceeds the header's length
  (it is reset to 0 for each header and advanced only by these loops), so the reads
  \<^verbatim>\<open>header->s[pos]\<close> are in range.
\<close>

definition get_token :: "HttpProxyNegotiator \<Rightarrow> bool \<times> HttpProxyNegotiator" where
  "get_token s =
     (let pos = skip_whitespace (header s) (header_pos s) in
      if pos = length (header s) then (False, s)
      else if is_separator (header s ! pos) then (False, s)
      else
        (let (tok, pos') = copy_token (header s) pos [] in
         (True, s\<lparr>token := tok, header_pos := pos'\<rparr>)))"

definition get_separator :: "HttpProxyNegotiator \<Rightarrow> char \<Rightarrow> bool \<times> HttpProxyNegotiator" where
  "get_separator s sep =
     (let pos = skip_whitespace (header s) (header_pos s) in
      if pos = length (header s) then (False, s)
      else if header s ! pos \<noteq> sep then (False, s)
      else (True, s\<lparr>header_pos := pos + 1\<rparr>))"

subsection \<open>C library conversions\<close>

text \<open>
  What a \<^verbatim>\<open>%d\<close> conversion stores in its \<^verbatim>\<open>int\<close> (32 bits) for the number \<open>v\<close> it has
  read.  Within the range of \<^verbatim>\<open>int\<close> it is \<open>v\<close>.  Beyond that range the C standard leaves
  the behaviour undefined; the model follows the GNU C library with a 64-bit
  \<^verbatim>\<open>long\<close>: the conversion saturates at the range of \<^verbatim>\<open>long\<close> and the result is cut to
  its low 32 bits, read as a signed number.
\<close>

definition scanf_int_store :: "int \<Rightarrow> int" where
  "scanf_int_store v =
     (let l = max (- (2 ^ 63)) (min (2 ^ 63 - 1) v)
      in (l + 2 ^ 31) mod 2 ^ 32 - 2 ^ 31)"

text \<open>
  One \<^verbatim>\<open>%d\<close> conversion of \<^verbatim>\<open>sscanf\<close>: white space is skipped, then an optional sign
  and a non-empty run of decimal digits are read.  The result is the \<^verbatim>\<open>int\<close> stored
  and the rest of the input.
\<close>

definition scan_int :: "string \<Rightarrow> (int \<times> string) option" where
  "scan_int s =
     (let s1 = dropWhile isspace s;
          neg = (s1 \<noteq> [] \<and> hd s1 = CHR ''-'');
          s2 = (if s1 \<noteq> [] \<and> (hd s1 = CHR ''-'' \<or> hd s1 = CHR ''+'') then tl s1 else s1);
          ds = takeWhile isdigit s2
      in if ds = [] then None
         else Some (scanf_int_store
                      (if neg then - int (digits_val ds) else int (digits_val ds)),
                    dropWhile isdigit s2))"

text \<open>
  \<^verbatim>\<open>sscanf(response->s, "HTTP/%d.%d %n%d", &maj_ver, &min_ver, &http_status_pos,
  &http_status)\<close> (lines 226--228).  The result is the number of conversions that
  succeeded, the two version numbers and the negotiator with the fields the call
  assigned.  (Where the input ends before the first conversion \<^verbatim>\<open>sscanf\<close> returns
  \<^verbatim>\<open>EOF\<close> rather than 0; the caller only asks whether the count is below 3.  The
  version numbers are read by the caller only when both were assigned.)
\<close>

definition sscanf_status_line ::
  "HttpProxyNegotiator \<Rightarrow> int \<times> int \<times> int \<times> HttpProxyNegotiator" where
  "sscanf_status_line s =
     (let line = c_str (response s) in
      if take 5 line \<noteq> ''HTTP/'' then (0, 0, 0, s)
      else
        (case scan_int (drop 5 line) of
           None \<Rightarrow> (0, 0, 0, s)
         | Some (maj_ver, r1) \<Rightarrow>
             if r1 = [] \<or> hd r1 \<noteq> CHR ''.'' then (1, maj_ver, 0, s)
             else
               (case scan_int (tl r1) of
                  None \<Rightarrow> (1, maj_ver, 0, s)
                | Some (min_ver, r2) \<Rightarrow>
                    (let r3 = dropWhile isspace r2;
                         s' = s\<lparr>http_status_pos := int (length line) - int (length r3)\<rparr>
                     in case scan_int r3 of
                          None \<Rightarrow> (2, maj_ver, min_ver, s')
                        | Some (status, r4) \<Rightarrow>
                            (3, maj_ver, min_ver, s'\<lparr>http_status := status\<rparr>)))))"

text \<open>
  \<^verbatim>\<open>strtoumax(token->s, NULL, 10)\<close> (line 271), stored in a 64-bit \<^verbatim>\<open>size_t\<close>: white
  space, an optional sign and the longest run of decimal digits are converted; with
  no digit the result is 0; a value above \<^verbatim>\<open>UINTMAX_MAX\<close> gives \<^verbatim>\<open>UINTMAX_MAX\<close>; a
  minus sign negates the value modulo \<open>2\<^sup>6\<^sup>4\<close>.
\<close>

definition strtoumax :: "string \<Rightarrow> nat" where
  "strtoumax str =
     (let s1 = dropWhile isspace (c_str str);
          neg = (s1 \<noteq> [] \<and> hd s1 = CHR ''-'');
          s2 = (if s1 \<noteq> [] \<and> (hd s1 = CHR ''-'' \<or> hd s1 = CHR ''+'') then tl s1 else s1);
          ds = takeWhile isdigit s2;
          v = digits_val ds
      in if ds = [] then 0
         else if v > 2 ^ 64 - 1 then 2 ^ 64 - 1
         else if neg then (2 ^ 64 - v) mod 2 ^ 64
         else v)"

subsection \<open>Basic authentication\<close>

definition base64_chars :: string where
  "base64_chars = ''ABCDEFGHIJKLMNOPQRSTUVWXYZabcdefghijklmnopqrstuvwxyz0123456789+/''"

text \<open>
  Modelled from the spec: \<^verbatim>\<open>base64_encode_atom(data, n, out)\<close> (PuTTY's utils, not in
  this file) encodes a group of \<open>n\<close> bytes, 1 to 3, as 4 characters of the standard
  alphabet, "the final group, if 1 or 2 bytes, is padded with \<^verbatim>\<open>=\<close> to 4 output
  characters".
\<close>

definition base64_encode_atom :: "string \<Rightarrow> nat \<Rightarrow> string" where
  "base64_encode_atom data n =
     (let word = (of_char (data ! 0) :: nat) * 65536
                 + (if n > 1 then of_char (data ! 1) * 256 else 0)
                 + (if n > 2 then of_char (data ! 2) else 0)
      in [base64_chars ! (word div 262144 mod 64),
          base64_chars ! (word div 4096 mod 64),
          (if n > 1 then base64_chars ! (word div 64 mod 64) else CHR ''=''),
          (if n > 2 then base64_chars ! (word mod 64) else CHR ''='')])"

text \<open>
  The loop of lines 196--200:
  \<^verbatim>\<open>for (i = 0, e = len; i < e; i += 3) put_data(out, atom(in + i, e-i > 3 ? 3 : e-i), 4)\<close>.
\<close>

function base64_loop :: "string \<Rightarrow> nat \<Rightarrow> nat \<Rightarrow> string \<Rightarrow> string" where
  "base64_loop base64_input i e out =
     (if i < e
      then base64_loop base64_input (i + 3) e
             (out @ base64_encode_atom (drop i base64_input) (if e - i > 3 then 3 else e - i))
      else out)"
  by pat_completeness auto
termination
  by (relation "measure (\<lambda>(base64_input, i, e, out). e - i)") auto

declare base64_loop.simps [simp del]

text \<open>
  Base64 as the spec words it: the input in 3-byte groups, the last group of 1 or 2
  bytes padded.
\<close>

fun base64 :: "string \<Rightarrow> string" where
  "base64 [] = []"
| "base64 [a] = base64_encode_atom [a] 1"
| "base64 [a, b] = base64_encode_atom [a, b] 2"
| "base64 (a # b # c # rest) = base64_encode_atom [a, b, c] 3 @ base64 rest"

subsection \<open>The coroutine\<close>

text \<open>
  \<^verbatim>\<open>proxy_http_process_queue\<close> is a coroutine (\<^verbatim>\<open>crBegin\<close> to \<^verbatim>\<open>crFinishV\<close>): it returns
  at \<^verbatim>\<open>crReturnV\<close> after storing the line number in \<^verbatim>\<open>crLine\<close>, and the next call jumps
  back to that line.  \<^verbatim>\<open>crMaybeWaitUntilV(c)\<close> is \<^verbatim>\<open>while (!(c)) crReturnV\<close>, and
  \<^verbatim>\<open>crStopV\<close> and \<^verbatim>\<open>crFinishV\<close> store 0 and return.  Each stretch of code between two
  such points is one function below; a stretch either returns from the call or runs
  on into the next statement.
\<close>

datatype flow = Return HttpProxyNegotiator | Continue HttpProxyNegotiator

definition crStopV :: "HttpProxyNegotiator \<Rightarrow> HttpProxyNegotiator" where
  "crStopV s = s\<lparr>crLine := 0\<rparr>"

text \<open>Lines 162--165: the credentials of the configuration.\<close>

definition init_from_conf :: "ProxySocket \<Rightarrow> HttpProxyNegotiator \<Rightarrow> HttpProxyNegotiator" where
  "init_from_conf ps s =
     (let s1 = s\<lparr>username := username s @ c_str (conf_proxy_username ps)\<rparr>;
          s2 = s1\<lparr>password := password s1 @ c_str (conf_proxy_password ps)\<rparr>
      in if length (username s2) \<noteq> 0 \<or> length (password s2) \<noteq> 0
         then s2\<lparr>try_auth_from_conf := True\<rparr> else s2)"

text \<open>
  Lines 171--178: the request line and the \<^verbatim>\<open>Host\<close> header.  \<^verbatim>\<open>remote_addr\<close> is the
  text \<^verbatim>\<open>sk_getaddr\<close> writes into \<^verbatim>\<open>dest\<close>.
\<close>

definition connect_prefix :: "ProxySocket \<Rightarrow> string" where
  "connect_prefix ps =
     (let dest = c_str (remote_addr ps); port = format_int (remote_port ps) in
      ''CONNECT '' @ dest @ '':'' @ port @ '' HTTP/1.1'' @ CRLF @
      ''Host: '' @ dest @ '':'' @ port @ CRLF)"

text \<open>Lines 186--207: the optional \<^verbatim>\<open>Proxy-Authorization\<close> header.\<close>

definition send_auth :: "HttpProxyNegotiator \<Rightarrow> HttpProxyNegotiator" where
  "send_auth s =
     (if tried_no_auth s then
        (if length (username s) \<noteq> 0 \<or> length (password s) \<noteq> 0 then
           (let out1 = pn_output s @ ''Proxy-Authorization: Basic '';
                base64_input = username s @ '':'' @ password s;
                out2 = base64_loop base64_input 0 (length base64_input) out1
            in s\<lparr>pn_output := out2 @ CRLF\<rparr>)
         else s)
      else s\<lparr>tried_no_auth := True\<rparr>)"

text \<open>
  Lines 167--213, the head of the \<^verbatim>\<open>while (true)\<close> loop: the request is appended to
  the output and the coroutine returns at line 213.
\<close>

definition send_request :: "ProxySocket \<Rightarrow> HttpProxyNegotiator \<Rightarrow> HttpProxyNegotiator" where
  "send_request ps s =
     (let s1 = s\<lparr>pn_output := pn_output s @ connect_prefix ps\<rparr>;
          s2 = send_auth s1;
          s3 = s2\<lparr>pn_output := pn_output s2 @ CRLF\<rparr>
      in s3\<lparr>crLine := 213\<rparr>)"

text \<open>
  Modelled from the spec: \<^verbatim>\<open>seat_get_userpass_input\<close> (not in this file) on a positive
  result has stored one answer in each prompt's result, in order.
\<close>

definition seat_fill :: "string list \<Rightarrow> prompts_t \<Rightarrow> prompts_t" where
  "seat_fill answers p =
     p\<lparr>prompts_list :=
         map (\<lambda>(i, q). if i < length answers then q\<lparr>result := answers ! i\<rparr> else q)
           (enumerate 0 (prompts_list p))\<rparr>"

text \<open>
  Modelled from the spec: \<^verbatim>\<open>prompt_get_result_ref(prompts->prompts[i])\<close> (not in this
  file) is the answer stored in prompt \<open>i\<close>, the "returned byte sequences, indexed
  identically".  The indices the code uses are those it got from \<^verbatim>\<open>n_prompts\<close> when it
  added the prompts, so they are in range.
\<close>

definition prompt_get_result_ref :: "prompts_t \<Rightarrow> int \<Rightarrow> string" where
  "prompt_get_result_ref p i =
     (if 0 \<le> i \<and> nat i < length (prompts_list p) then result (prompts_list p ! nat i)
      else [])"

text \<open>
  Modelled from the spec: \<^verbatim>\<open>add_prompt(prompts, text, echo)\<close> (not in this file) appends
  one field to the "ordered list of \<open>{label, masked}\<close> fields"; a field is masked when
  \<^verbatim>\<open>echo\<close> is false.
\<close>

definition add_prompt :: "prompts_t \<Rightarrow> string \<Rightarrow> bool \<Rightarrow> prompts_t" where
  "add_prompt p text echo_flag =
     p\<lparr>prompts_list := prompts_list p @ [\<lparr>prompt = text, echo = echo_flag, result = []\<rparr>]\<rparr>"

text \<open>Lines 334--346: the prompts for the user.\<close>

definition make_prompts :: "HttpProxyNegotiator \<Rightarrow> HttpProxyNegotiator" where
  "make_prompts s =
     (let p0 = \<lparr>to_server = True, from_server = False,
                name = ''HTTP proxy authentication'', prompts_list = []\<rparr>;
          (s1, p1) =
            (if length (username s) = 0
             then (s\<lparr>username_prompt_index := int (length (prompts_list p0))\<rparr>,
                   add_prompt p0 ''Proxy username: '' True)
             else (s\<lparr>username_prompt_index := - 1\<rparr>, p0));
          s2 = s1\<lparr>password_prompt_index := int (length (prompts_list p1))\<rparr>;
          p2 = add_prompt p1 ''Proxy password: '' False
      in s2\<lparr>prompts := Some p2\<rparr>)"

text \<open>
  Lines 348--373: one call of \<^verbatim>\<open>seat_get_userpass_input\<close>, whose answer is \<open>reply\<close>.
  On a positive answer the credentials are replaced and the loop starts over with a
  new request; on zero the negotiation is aborted; otherwise the coroutine returns
  at line 357 and asks again when resumed.  (\<^verbatim>\<open>prompts\<close> is not \<^verbatim>\<open>NULL\<close> here: line 334
  has set it.)
\<close>

definition prompt_loop ::
  "ProxySocket \<Rightarrow> seat_reply \<Rightarrow> HttpProxyNegotiator \<Rightarrow> HttpProxyNegotiator" where
  "prompt_loop ps reply s =
     (case reply of
        Pending \<Rightarrow> s\<lparr>crLine := 357\<rparr>
      | Cancelled \<Rightarrow> crStopV (s\<lparr>pn_aborted := True\<rparr>)
      | Answered answers \<Rightarrow>
          (let p = (case prompts s of Some p \<Rightarrow> seat_fill answers p
                    | None \<Rightarrow> \<lparr>to_server = False, from_server = False, name = [],
                                prompts_list = []\<rparr>);
               s1 = (if username_prompt_index s \<noteq> - 1
                     then s\<lparr>username := c_str (prompt_get_result_ref p (username_prompt_index s))\<rparr>
                     else s);
               s2 = s1\<lparr>password :=
                       c_str (prompt_get_result_ref p (password_prompt_index s1))\<rparr>;
               s3 = s2\<lparr>prompts := None\<rparr>
           in send_request ps s3))"

text \<open>Lines 298--379: the decision on the status code, after headers and body.\<close>

definition decide ::
  "ProxySocket \<Rightarrow> seat_reply \<Rightarrow> HttpProxyNegotiator \<Rightarrow> HttpProxyNegotiator" where
  "decide ps reply s =
     (if 200 \<le> http_status s \<and> http_status s < 300 then
        (s\<lparr>pn_done := True\<rparr>)\<lparr>crLine := 0\<rparr>
      else if http_status s = 407 then
        (if connection_close s then
           crStopV (s\<lparr>pn_error :=
             Some ''HTTP proxy closed connection after asking for authentication''\<rparr>)
         else if try_auth_from_conf s then
           send_request ps (s\<lparr>try_auth_from_conf := False\<rparr>)
         else if \<not> pn_itr s then
           crStopV (s\<lparr>pn_error :=
             Some ''HTTP proxy requested authentication which we do not have''\<rparr>)
         else prompt_loop ps reply (make_prompts s))
      else
        crStopV (s\<lparr>pn_error :=
          Some (''HTTP response '' @ c_str (drop (nat (http_status_pos s)) (response s)))\<rparr>))"

text \<open>Lines 295--296: the response body is consumed once all of it has arrived.\<close>

definition read_body ::
  "ProxySocket \<Rightarrow> seat_reply \<Rightarrow> HttpProxyNegotiator \<Rightarrow> HttpProxyNegotiator" where
  "read_body ps reply s =
     (let (ok, inp) = bufchain_try_consume (pn_input s) (content_length s) in
      if \<not> ok then s\<lparr>crLine := 295\<rparr>
      else decide ps reply (s\<lparr>pn_input := inp\<rparr>))"

text \<open>Lines 257--263: the header's name, each comparison overriding the previous one.\<close>

definition header_kind :: "string \<Rightarrow> HttpHeader" where
  "header_kind tok =
     (let hdr = HDR_UNKNOWN;
          hdr = (if stricmp tok ''Connection'' = 0 then HDR_CONNECTION else hdr);
          hdr = (if stricmp tok ''Content-Length'' = 0 then HDR_CONTENT_LENGTH else hdr);
          hdr = (if stricmp tok ''Proxy-Authenticate'' = 0 then HDR_PROXY_AUTHENTICATE else hdr)
      in hdr)"

text \<open>
  Lines 247--291, the body of the \<^verbatim>\<open>do\<close> loop after a header line has been read.
  \<^verbatim>\<open>continue\<close> goes on to the loop's condition, \<^verbatim>\<open>crStopV\<close> returns.
\<close>

definition process_header :: "HttpProxyNegotiator \<Rightarrow> flow" where
  "process_header s0 =
     (let s = s0\<lparr>header_pos := 0\<rparr>;
          (got_name, s1) = get_token s
      in if \<not> got_name then Continue s1
         else
           (let hdr = header_kind (token s1);
                (got_colon, s2) = get_separator s1 (CHR '':'')
            in if \<not> got_colon then Continue s2
               else if hdr = HDR_CONTENT_LENGTH then
                 (let (got, s3) = get_token s2 in
                  if \<not> got then Continue s3
                  else Continue (s3\<lparr>content_length := strtoumax (token s3)\<rparr>))
               else if hdr = HDR_CONNECTION then
                 (let (got, s3) = get_token s2 in
                  if \<not> got then Continue s3
                  else if stricmp (token s3) ''close'' = 0
                    then Continue (s3\<lparr>connection_close := True\<rparr>)
                  else if stricmp (token s3) ''keep-alive'' = 0
                    then Continue (s3\<lparr>connection_close := False\<rparr>)
                  else Continue s3)
               else if hdr = HDR_PROXY_AUTHENTICATE then
                 (let (got, s3) = get_token s2 in
                  if \<not> got then Continue s3
                  else if stricmp (token s3) ''Basic'' = 0 then Continue s3
                  else Return (crStopV (s3\<lparr>pn_error :=
                         Some (''HTTP proxy asked for unsupported authentication type '' @
                               [CHR 0x27] @ c_str (token s3) @ [CHR 0x27])\<rparr>)))
               else Continue s2))"

text \<open>
  Lines 244--292 from the \<^verbatim>\<open>crMaybeWaitUntilV\<close> of line 246 on: the place the
  coroutine resumes at.  When \<^verbatim>\<open>read_line\<close> has no complete header the coroutine
  returns at line 246; when the loop's condition holds the header is cleared (line
  245) and the next one is read.
\<close>

partial_function (option) header_loop :: "HttpProxyNegotiator \<Rightarrow> flow option" where
  "header_loop s =
     (case read_line (pn_input s) (header s) True of
        None \<Rightarrow> None
      | Some (got, inp, out) \<Rightarrow>
          (let s1 = s\<lparr>pn_input := inp, header := out\<rparr> in
           if \<not> got then Some (Return (s1\<lparr>crLine := 246\<rparr>))
           else
             (case process_header s1 of
                Return s2 \<Rightarrow> Some (Return s2)
              | Continue s2 \<Rightarrow>
                  if length (header s2) > 0 then header_loop (s2\<lparr>header := []\<rparr>)
                  else Some (Continue s2))))"

declare header_loop.simps [code]

text \<open>The header section and what follows it.\<close>

definition read_headers ::
  "ProxySocket \<Rightarrow> seat_reply \<Rightarrow> HttpProxyNegotiator \<Rightarrow> HttpProxyNegotiator option" where
  "read_headers ps reply s =
     (case header_loop s of
        None \<Rightarrow> None
      | Some (Return s') \<Rightarrow> Some s'
      | Some (Continue s') \<Rightarrow> Some (read_body ps reply s'))"

text \<open>Lines 224--239: the status line is parsed, once \<^verbatim>\<open>read_line\<close> has completed it.\<close>

definition parse_status_line :: "HttpProxyNegotiator \<Rightarrow> flow" where
  "parse_status_line s =
     (let (n_scanned, maj_ver, min_ver, s2) = sscanf_status_line s in
      if n_scanned < 3 then
        Return (crStopV (s2\<lparr>pn_error := Some ''HTTP response was absent or malformed''\<rparr>))
      else
        Continue (if maj_ver < 1 \<and> (maj_ver = 1 \<and> min_ver < 1)
                  then s2\<lparr>connection_close := True\<rparr> else s2))"

text \<open>
  Lines 223--246: the status line is read; when it is not complete the coroutine
  returns at line 223.  After it the header section starts with an empty header
  buffer (line 245).
\<close>

definition read_status_line ::
  "ProxySocket \<Rightarrow> seat_reply \<Rightarrow> HttpProxyNegotiator \<Rightarrow> HttpProxyNegotiator option" where
  "read_status_line ps reply s =
     (case read_line (pn_input s) (response s) False of
        None \<Rightarrow> None
      | Some (got, inp, out) \<Rightarrow>
          (let s1 = s\<lparr>pn_input := inp, response := out\<rparr> in
           if \<not> got then Some (s1\<lparr>crLine := 223\<rparr>)
           else
             (case parse_status_line s1 of
                Return s2 \<Rightarrow> Some s2
              | Continue s3 \<Rightarrow> read_headers ps reply (s3\<lparr>header := []\<rparr>))))"

text \<open>Lines 215--222: what the coroutine does first when resumed after a request.\<close>

definition after_request ::
  "ProxySocket \<Rightarrow> seat_reply \<Rightarrow> HttpProxyNegotiator \<Rightarrow> HttpProxyNegotiator option" where
  "after_request ps reply s =
     read_status_line ps reply
       (s\<lparr>content_length := 0, connection_close := False, response := []\<rparr>)"

text \<open>
  One call of \<^verbatim>\<open>proxy_http_process_queue\<close>: the \<^verbatim>\<open>switch\<close> of \<^verbatim>\<open>crBegin\<close> on \<^verbatim>\<open>crLine\<close>.
  \<open>reply\<close> is what \<^verbatim>\<open>seat_get_userpass_input\<close> answers if this call asks it; the bytes
  that have arrived are in \<^verbatim>\<open>pn_input\<close>.  \<^term>\<open>None\<close>: the call does not return.
\<close>

definition proxy_http_process_queue ::
  "ProxySocket \<Rightarrow> seat_reply \<Rightarrow> HttpProxyNegotiator \<Rightarrow> HttpProxyNegotiator option" where
  "proxy_http_process_queue ps reply s =
     (if crLine s = 0 then Some (send_request ps (init_from_conf ps s))
      else if crLine s = 213 then after_request ps reply s
      else if crLine s = 223 then read_status_line ps reply s
      else if crLine s = 246 then read_headers ps reply s
      else if crLine s = 295 then Some (read_body ps reply s)
      else if crLine s = 357 then Some (prompt_loop ps reply s)
      else Some (s\<lparr>crLine := 0\<rparr>))"

text \<open>
  The caller: it appends the bytes that arrived to the input and calls the
  negotiator, until the negotiation has an outcome.
\<close>

definition finished :: "HttpProxyNegotiator \<Rightarrow> bool" where
  "finished s = (pn_done s \<or> pn_aborted s \<or> pn_error s \<noteq> None)"

fun run ::
  "ProxySocket \<Rightarrow> HttpProxyNegotiator \<Rightarrow> (string \<times> seat_reply) list \<Rightarrow>
   HttpProxyNegotiator option" where
  "run ps s [] = Some s"
| "run ps s ((bytes, reply) # events) =
     (if finished s then Some s
      else
        (case proxy_http_process_queue ps reply (s\<lparr>pn_input := pn_input s @ bytes\<rparr>) of
           None \<Rightarrow> None
         | Some s' \<Rightarrow> run ps s' events))"

subsection \<open>Notions used to state the properties\<close>

text \<open>
  The state in which \<^verbatim>\<open>read_line\<close> has a header that ends in a newline and the next
  byte of the input is a space or a tab: a folded header line.
\<close>

definition fold_pending :: "string \<Rightarrow> string \<Rightarrow> bool \<Rightarrow> bool" where
  "fold_pending inp out is_header =
     (is_header \<and> length out > 0 \<and> out ! (length out - 1) = LF \<and>
      inp \<noteq> [] \<and> (hd inp = CHR '' '' \<or> hd inp = TAB))"

text \<open>A byte that can be part of a token (section 4.2 of the spec).\<close>

definition token_char :: "char \<Rightarrow> bool" where
  "token_char c = (\<not> is_whitespace c \<and> \<not> is_separator c)"

text \<open>The negotiator inside a \<^typ>\<open>flow\<close>.\<close>

fun flow_state :: "flow \<Rightarrow> HttpProxyNegotiator" where
  "flow_state (Return s) = s"
| "flow_state (Continue s) = s"

text \<open>The fields that reading and parsing the response header section leaves alone.\<close>

definition header_frame :: "HttpProxyNegotiator \<Rightarrow> HttpProxyNegotiator \<Rightarrow> bool" where
  "header_frame s s' =
     (response s' = response s \<and> http_status_pos s' = http_status_pos s \<and>
      username s' = username s \<and> password s' = password s \<and>
      http_status s' = http_status s \<and> tried_no_auth s' = tried_no_auth s \<and>
      try_auth_from_conf s' = try_auth_from_conf s \<and> prompts s' = prompts s \<and>
      username_prompt_index s' = username_prompt_index s \<and>
      password_prompt_index s' = password_prompt_index s \<and>
      pn_output s' = pn_output s \<and> pn_aborted s' = pn_aborted s \<and>
      pn_done s' = pn_done s \<and> pn_itr s' = pn_itr s)"

text \<open>The coroutine is suspended at one of its five \<^verbatim>\<open>crReturnV\<close> points.\<close>

definition suspended :: "HttpProxyNegotiator \<Rightarrow> bool" where
  "suspended s =
     (crLine s = 213 \<or> crLine s = 223 \<or> crLine s = 246 \<or> crLine s = 295 \<or> crLine s = 357)"

text \<open>
  What one call keeps: it ends suspended or with an outcome, it never sets
  \<^verbatim>\<open>try_auth_from_conf\<close> and never clears \<^verbatim>\<open>tried_no_auth\<close>.
\<close>

definition call_keeps :: "HttpProxyNegotiator \<Rightarrow> HttpProxyNegotiator \<Rightarrow> bool" where
  "call_keeps s s' =
     ((finished s' \<or> suspended s') \<and>
      (try_auth_from_conf s \<or> \<not> try_auth_from_conf s') \<and>
      (tried_no_auth s' \<or> \<not> tried_no_auth s))"

text \<open>Example values for the concrete runs below.\<close>

definition example_socket :: ProxySocket where
  "example_socket =
     \<lparr>conf_proxy_username = ''user'', conf_proxy_password = ''pass'',
      remote_addr = ''example.com'', remote_port = 22\<rparr>"

definition anonymous_socket :: ProxySocket where
  "anonymous_socket =
     \<lparr>conf_proxy_username = [], conf_proxy_password = [],
      remote_addr = ''example.com'', remote_port = 22\<rparr>"

text \<open>
  A token "parsed as an unsigned base-10 integer", as the spec words it: a non-empty run
  of decimal digits and nothing else.
\<close>

definition parse_unsigned :: "string \<Rightarrow> nat option" where
  "parse_unsigned tok =
     (if tok \<noteq> [] \<and> list_all isdigit tok then Some (digits_val tok) else None)"

text \<open>
  The status line pattern of the spec, \<^verbatim>\<open>HTTP/<major>.<minor> <3-digit-status>\<close> followed
  by a reason phrase: the two version numbers are non-empty runs of digits, one space
  follows, and the status is a run of exactly three digits.
\<close>

definition matches_status_pattern :: "string \<Rightarrow> bool" where
  "matches_status_pattern line =
     (let r = drop 5 line;
          majd = takeWhile isdigit r; r1 = dropWhile isdigit r;
          mind = takeWhile isdigit (drop 1 r1); r2 = dropWhile isdigit (drop 1 r1);
          std = takeWhile isdigit (drop 1 r2)
      in take 5 line = ''HTTP/'' \<and> majd \<noteq> [] \<and> take 1 r1 = ''.'' \<and> mind \<noteq> [] \<and>
         take 1 r2 = '' '' \<and> length std = 3)"

text \<open>
  "The response-line text following the status code": what comes after the digits of
  the status code in the response line.
\<close>

definition text_after_status :: "HttpProxyNegotiator \<Rightarrow> string" where
  "text_after_status s =
     dropWhile isdigit (drop (nat (http_status_pos s)) (c_str (response s)))"

section \<open>Properties\<close>

subsection \<open>The line reader, step by step\<close>

text \<open>
  In the folded-header state the loop body of \<^verbatim>\<open>read_line\<close> changes nothing: the
  first \<^verbatim>\<open>if\<close> is taken, its inner \<^verbatim>\<open>if\<close> is not, and nothing is consumed.  So no
  call that starts there returns.
\<close>

lemma read_line_returns_not_pending:
  assumes "read_line inp out is_header = Some r"
  shows "\<not> fold_pending inp out is_header"
proof (rule read_line.raw_induct
        [where P = "\<lambda>inp out is_header r. \<not> fold_pending inp out is_header", OF _ assms],
       goal_cases)
  case (1 rl inp' out' h' r')
  show ?case
  proof
    assume st: "fold_pending inp' out' h'"
    then obtain c rest where i: "inp' = c # rest" "c = CHR '' '' \<or> c = TAB"
      by (cases inp') (auto simp: fold_pending_def)
    from 1(2) st i have "rl inp' out' h' = Some r'"
      by (auto simp: fold_pending_def)
    from 1(1)[OF this] st show False by blast
  qed
qed

lemma read_line_stuck:
  assumes "fold_pending inp out is_header"
  shows "read_line inp out is_header = None"
proof (cases "read_line inp out is_header")
  case None
  then show ?thesis .
next
  case (Some r)
  from read_line_returns_not_pending[OF Some] assms show ?thesis by blast
qed

lemma read_line_empty: "read_line [] out is_header = Some (False, [], out)"
  by (simp add: read_line.simps)

lemma read_line_plain_byte:
  "c \<noteq> LF \<Longrightarrow> read_line (c # rest) out False = read_line rest (out @ [c]) False"
  by (subst read_line.simps) simp

lemma read_line_plain_newline:
  "read_line (LF # rest) out False =
     Some (True, rest, strbuf_chomp (strbuf_chomp (out @ [LF]) LF) CR)"
  by (subst read_line.simps) simp

lemma read_line_header_byte:
  "\<not> (length out > 0 \<and> out ! (length out - 1) = LF) \<Longrightarrow>
   read_line (c # rest) out True = read_line rest (out @ [c]) True"
  by (subst read_line.simps) auto

lemma read_line_header_done:
  "length out > 0 \<Longrightarrow> out ! (length out - 1) = LF \<Longrightarrow> c \<noteq> CHR '' '' \<Longrightarrow> c \<noteq> TAB \<Longrightarrow>
   read_line (c # rest) out True = Some (True, c # rest, strbuf_chomp (strbuf_chomp out LF) CR)"
  by (subst read_line.simps) simp

lemma read_line_header_fold:
  "length out > 0 \<Longrightarrow> out ! (length out - 1) = LF \<Longrightarrow> c = CHR '' '' \<or> c = TAB \<Longrightarrow>
   read_line (c # rest) out True = None"
  by (rule read_line_stuck) (auto simp: fold_pending_def)

lemmas read_line_eval = read_line_empty read_line_plain_byte read_line_plain_newline
  read_line_header_byte read_line_header_done read_line_header_fold

lemmas scan_eval = sscanf_status_line_def c_str_def scan_int_def scanf_int_store_def
  isspace_def isdigit_def
  digits_val_def digit_val_def

subsection \<open>The tokenizer on a line of known shape\<close>

lemma skip_whitespace_app:
  "list_all is_whitespace ws \<Longrightarrow> rest = [] \<or> \<not> is_whitespace (hd rest) \<Longrightarrow>
   skip_whitespace (pre @ ws @ rest) (length pre) = length pre + length ws"
proof (induction ws arbitrary: pre)
  case Nil
  then show ?case
    by (subst skip_whitespace.simps, cases rest) (simp_all add: nth_append)
next
  case (Cons w ws)
  from Cons.prems have w: "is_whitespace w" and ws: "list_all is_whitespace ws" by simp_all
  have "skip_whitespace (pre @ (w # ws) @ rest) (length pre)
        = skip_whitespace ((pre @ [w]) @ ws @ rest) (length (pre @ [w]))"
    by (subst skip_whitespace.simps) (simp add: nth_append w)
  also have "\<dots> = length (pre @ [w]) + length ws"
    by (rule Cons.IH[OF ws Cons.prems(2)])
  finally show ?case by simp
qed

lemma copy_token_app:
  "list_all token_char tok \<Longrightarrow> rest = [] \<or> \<not> token_char (hd rest) \<Longrightarrow>
   copy_token (pre @ tok @ rest) (length pre) acc = (acc @ tok, length pre + length tok)"
proof (induction tok arbitrary: pre acc)
  case Nil
  then show ?case
    by (subst copy_token.simps, cases rest) (auto simp: nth_append token_char_def)
next
  case (Cons t tok)
  from Cons.prems have t: "token_char t" and tok: "list_all token_char tok" by simp_all
  have "copy_token (pre @ (t # tok) @ rest) (length pre) acc
        = copy_token ((pre @ [t]) @ tok @ rest) (length (pre @ [t])) (acc @ [t])"
    using t by (subst copy_token.simps) (simp add: nth_append token_char_def)
  also have "\<dots> = ((acc @ [t]) @ tok, length (pre @ [t]) + length tok)"
    by (rule Cons.IH[OF tok Cons.prems(2)])
  finally show ?case by simp
qed

lemma get_token_shape:
  assumes "header s = pre @ ws @ tok @ rest" "header_pos s = length pre"
    "list_all is_whitespace ws" "tok \<noteq> []" "list_all token_char tok"
    "rest = [] \<or> \<not> token_char (hd rest)"
  shows "get_token s = (True, s\<lparr>token := tok, header_pos := length pre + length ws + length tok\<rparr>)"
proof -
  obtain t tok' where tk: "tok = t # tok'" using assms(4) by (cases tok) auto
  with assms(5) have t: "token_char t" by simp
  have sk: "skip_whitespace (header s) (header_pos s) = length pre + length ws"
    using skip_whitespace_app[of ws "tok @ rest" pre] assms(1,2,3) t tk
    by (simp add: token_char_def)
  have nth: "header s ! (length pre + length ws) = t"
    using assms(1) tk by (simp add: nth_append)
  have cp: "copy_token (header s) (length pre + length ws) [] = (tok, length pre + length ws + length tok)"
    using copy_token_app[of tok rest "pre @ ws" "[]"] assms(1,5,6) by simp
  have len: "length pre + length ws \<noteq> length (header s)"
    using assms(1) tk by simp
  show ?thesis
    using t len by (simp add: get_token_def sk nth cp token_char_def)
qed

lemma get_separator_shape:
  assumes "header s = pre @ ws @ sep # rest" "header_pos s = length pre"
    "list_all is_whitespace ws" "\<not> is_whitespace sep"
  shows "get_separator s sep = (True, s\<lparr>header_pos := length pre + length ws + 1\<rparr>)"
proof -
  have sk: "skip_whitespace (header s) (header_pos s) = length pre + length ws"
    using skip_whitespace_app[of ws "sep # rest" pre] assms by simp
  have nth: "header s ! (length pre + length ws) = sep"
    using assms(1) by (simp add: nth_append)
  have len: "length pre + length ws \<noteq> length (header s)"
    using assms(1) by simp
  show ?thesis
    using len by (simp add: get_separator_def sk nth)
qed

subsection \<open>What reading the header section and one call leave alone\<close>

lemma header_frame_refl: "header_frame s s"
  by (simp add: header_frame_def)

lemma header_frame_trans: "header_frame s s1 \<Longrightarrow> header_frame s1 s2 \<Longrightarrow> header_frame s s2"
  by (simp add: header_frame_def)

lemma get_token_frame: "header_frame s (snd (get_token s))"
  by (simp add: get_token_def header_frame_def Let_def split: prod.splits)

lemma get_token_header: "header (snd (get_token s)) = header s"
  by (simp add: get_token_def Let_def split: prod.splits)

lemma get_separator_frame: "header_frame s (snd (get_separator s sep))"
  by (simp add: get_separator_def header_frame_def Let_def)

lemma get_separator_header: "header (snd (get_separator s sep)) = header s"
  by (simp add: get_separator_def Let_def)

lemma process_header_frame: "header_frame s (flow_state (process_header s))"
proof -
  have a: "\<And>s. header_frame s (s\<lparr>header_pos := 0\<rparr>)" by (simp add: header_frame_def)
  have b: "\<And>s s' v. header_frame s s' \<Longrightarrow> header_frame s (s'\<lparr>content_length := v\<rparr>)"
    by (simp add: header_frame_def)
  have c: "\<And>s s' v. header_frame s s' \<Longrightarrow> header_frame s (s'\<lparr>connection_close := v\<rparr>)"
    by (simp add: header_frame_def)
  have d: "\<And>s s' v. header_frame s s' \<Longrightarrow> header_frame s (crStopV (s'\<lparr>pn_error := v\<rparr>))"
    by (simp add: header_frame_def crStopV_def)
  define s0 where "s0 = s\<lparr>header_pos := 0\<rparr>"
  define s1 where "s1 = snd (get_token s0)"
  define s2 where "s2 = snd (get_separator s1 (CHR '':''))"
  define s3 where "s3 = snd (get_token s2)"
  have f1: "header_frame s s1"
    unfolding s1_def s0_def using a get_token_frame header_frame_trans by blast
  have f2: "header_frame s s2"
    unfolding s2_def using f1 get_separator_frame header_frame_trans by blast
  have f3: "header_frame s s3"
    unfolding s3_def using f2 get_token_frame header_frame_trans by blast
  show ?thesis
    using f1 f2 f3 b[OF f3] c[OF f3] d[OF f3]
    by (simp add: process_header_def Let_def case_prod_beta s0_def s1_def s2_def s3_def)
qed

lemma process_header_header: "header (flow_state (process_header s)) = header s"
proof -
  define s0 where "s0 = s\<lparr>header_pos := 0\<rparr>"
  define s1 where "s1 = snd (get_token s0)"
  define s2 where "s2 = snd (get_separator s1 (CHR '':''))"
  define s3 where "s3 = snd (get_token s2)"
  have h1: "header s1 = header s" by (simp add: s1_def s0_def get_token_header)
  have h2: "header s2 = header s" by (simp add: s2_def h1 get_separator_header)
  have h3: "header s3 = header s" by (simp add: s3_def h2 get_token_header)
  show ?thesis
    using h1 h2 h3
    by (simp add: process_header_def Let_def case_prod_beta s0_def s1_def s2_def s3_def
        crStopV_def)
qed

lemma process_header_Return:
  "process_header s = Return s' \<Longrightarrow> crLine s' = 0 \<and> pn_error s' \<noteq> None"
  by (auto simp: process_header_def Let_def case_prod_beta crStopV_def split: if_splits)


lemma header_loop_keeps:
  assumes "header_loop s = Some fl"
  shows "header_frame s (flow_state fl) \<and>
         (fl = Return (flow_state fl) \<longrightarrow>
            crLine (flow_state fl) = 246 \<or>
            crLine (flow_state fl) = 0 \<and> pn_error (flow_state fl) \<noteq> None)"
proof (rule header_loop.raw_induct
        [where P = "\<lambda>s fl. header_frame s (flow_state fl) \<and>
            (fl = Return (flow_state fl) \<longrightarrow>
               crLine (flow_state fl) = 246 \<or>
               crLine (flow_state fl) = 0 \<and> pn_error (flow_state fl) \<noteq> None)", OF _ assms],
       goal_cases)
  case (1 hl s fl)
  from 1(2) obtain got inp out where rl: "read_line (pn_input s) (header s) True = Some (got, inp, out)"
    by (cases "read_line (pn_input s) (header s) True") auto
  define s1 where "s1 = s\<lparr>pn_input := inp, header := out\<rparr>"
  have f1: "header_frame s s1" by (simp add: s1_def header_frame_def)
  show ?case
  proof (cases got)
    case False
    with 1(2) rl have "fl = Return (s1\<lparr>crLine := 246\<rparr>)" by (simp add: s1_def)
    with f1 show ?thesis by (simp add: header_frame_def)
  next
    case True
    note got = this
    show ?thesis
    proof (cases "process_header s1")
      case (Return s2)
      with 1(2) rl got have fl: "fl = Return s2" by (simp add: s1_def)
      from process_header_frame[of s1] Return have "header_frame s1 s2" by simp
      with f1 have "header_frame s s2" by (rule header_frame_trans)
      with fl process_header_Return[OF Return] show ?thesis by simp
    next
      case (Continue s2)
      from process_header_frame[of s1] Continue have "header_frame s1 s2" by simp
      with f1 have f2: "header_frame s s2" by (rule header_frame_trans)
      show ?thesis
      proof (cases "length (header s2) > 0")
        case True
        with 1(2) rl got Continue have "hl (s2\<lparr>header := []\<rparr>) = Some fl"
          by (simp add: s1_def)
        from 1(1)[OF this] have
          "header_frame (s2\<lparr>header := []\<rparr>) (flow_state fl)" and
          r: "fl = Return (flow_state fl) \<longrightarrow>
               crLine (flow_state fl) = 246 \<or>
               crLine (flow_state fl) = 0 \<and> pn_error (flow_state fl) \<noteq> None"
          by simp_all
        then have "header_frame s2 (flow_state fl)" by (simp add: header_frame_def)
        with f2 have "header_frame s (flow_state fl)" by (rule header_frame_trans)
        with r show ?thesis by simp
      next
        case False
        with 1(2) rl got Continue have "fl = Continue s2" by (simp add: s1_def)
        with f2 show ?thesis by simp
      qed
    qed
  qed
qed


lemma send_request_flags:
  "crLine (send_request ps s) = 213 \<and> tried_no_auth (send_request ps s) \<and>
   try_auth_from_conf (send_request ps s) = try_auth_from_conf s \<and>
   pn_error (send_request ps s) = pn_error s \<and> pn_done (send_request ps s) = pn_done s \<and>
   pn_aborted (send_request ps s) = pn_aborted s"
  by (simp add: send_request_def send_auth_def Let_def)

lemma call_keeps_from:
  "try_auth_from_conf s1 = try_auth_from_conf s \<Longrightarrow> tried_no_auth s1 = tried_no_auth s \<Longrightarrow>
   call_keeps s1 s' \<Longrightarrow> call_keeps s s'"
  by (simp add: call_keeps_def)

lemma prompt_loop_keeps: "call_keeps s (prompt_loop ps reply s)"
  by (cases reply)
     (simp_all add: prompt_loop_def call_keeps_def suspended_def finished_def crStopV_def
        send_request_flags Let_def)

lemma make_prompts_flags:
  "try_auth_from_conf (make_prompts s) = try_auth_from_conf s \<and>
   tried_no_auth (make_prompts s) = tried_no_auth s"
  by (simp add: make_prompts_def Let_def add_prompt_def)

lemma decide_keeps: "call_keeps s (decide ps reply s)"
proof -
  have "call_keeps s (prompt_loop ps reply (make_prompts s))"
    using call_keeps_from[OF _ _ prompt_loop_keeps[of "make_prompts s" ps reply], of s]
    by (simp add: make_prompts_flags)
  then show ?thesis
    by (auto simp: decide_def call_keeps_def suspended_def finished_def crStopV_def
        send_request_flags)
qed

lemma read_body_keeps: "call_keeps s (read_body ps reply s)"
proof -
  have "\<And>inp. call_keeps s (decide ps reply (s\<lparr>pn_input := inp\<rparr>))"
    by (rule call_keeps_from[OF _ _ decide_keeps]) simp_all
  then show ?thesis
    by (simp add: read_body_def bufchain_try_consume_def call_keeps_def suspended_def)
qed

lemma read_headers_keeps:
  assumes "read_headers ps reply s = Some s'"
  shows "call_keeps s s'"
proof -
  from assms obtain fl where hl: "header_loop s = Some fl"
    by (cases "header_loop s") (auto simp: read_headers_def)
  note k = header_loop_keeps[OF hl]
  show ?thesis
  proof (cases fl)
    case (Return s2)
    with assms hl have "s' = s2" by (simp add: read_headers_def)
    with k Return show ?thesis
      by (auto simp: call_keeps_def header_frame_def suspended_def finished_def)
  next
    case (Continue s2)
    with assms hl have s': "s' = read_body ps reply s2" by (simp add: read_headers_def)
    from k Continue have "header_frame s s2" by simp
    then have "try_auth_from_conf s2 = try_auth_from_conf s" "tried_no_auth s2 = tried_no_auth s"
      by (simp_all add: header_frame_def)
    from call_keeps_from[OF this read_body_keeps] s' show ?thesis by simp
  qed
qed

lemma parse_status_line_flags:
  "try_auth_from_conf (flow_state (parse_status_line s)) = try_auth_from_conf s \<and>
   tried_no_auth (flow_state (parse_status_line s)) = tried_no_auth s"
  by (simp add: parse_status_line_def sscanf_status_line_def Let_def crStopV_def
      split: option.splits prod.splits)

lemma parse_status_line_Return:
  "parse_status_line s = Return s' \<Longrightarrow> crLine s' = 0 \<and> pn_error s' \<noteq> None"
  by (auto simp: parse_status_line_def Let_def case_prod_beta crStopV_def split: if_splits)

lemma read_status_line_keeps:
  assumes "read_status_line ps reply s = Some s'"
  shows "call_keeps s s'"
proof -
  from assms obtain got inp out where
    rl: "read_line (pn_input s) (response s) False = Some (got, inp, out)"
    by (cases "read_line (pn_input s) (response s) False") (auto simp: read_status_line_def)
  define s1 where "s1 = s\<lparr>pn_input := inp, response := out\<rparr>"
  show ?thesis
  proof (cases got)
    case False
    with assms rl have "s' = s1\<lparr>crLine := 223\<rparr>" by (simp add: read_status_line_def s1_def)
    then show ?thesis by (simp add: call_keeps_def suspended_def s1_def)
  next
    case True
    note got = this
    have fl: "try_auth_from_conf (flow_state (parse_status_line s1)) = try_auth_from_conf s"
      "tried_no_auth (flow_state (parse_status_line s1)) = tried_no_auth s"
      using parse_status_line_flags[of s1] by (simp_all add: s1_def)
    show ?thesis
    proof (cases "parse_status_line s1")
      case (Return s2)
      with assms rl got have "s' = s2" by (simp add: read_status_line_def s1_def)
      with fl Return parse_status_line_Return[OF Return] show ?thesis
        by (simp add: call_keeps_def finished_def)
    next
      case (Continue s3)
      with assms rl got have "read_headers ps reply (s3\<lparr>header := []\<rparr>) = Some s'"
        by (simp add: read_status_line_def s1_def)
      from read_headers_keeps[OF this] fl Continue show ?thesis
        by (simp add: call_keeps_def)
    qed
  qed
qed

lemma process_queue_keeps:
  assumes "suspended s" "proxy_http_process_queue ps reply s = Some s'"
  shows "call_keeps s s'"
proof -
  consider "crLine s = 213" | "crLine s = 223" | "crLine s = 246" | "crLine s = 295"
    | "crLine s = 357"
    using assms(1) by (auto simp: suspended_def)
  then show ?thesis
  proof cases
    case 1
    with assms(2) have
      "read_status_line ps reply (s\<lparr>content_length := 0, connection_close := False, response := []\<rparr>)
        = Some s'"
      by (simp add: proxy_http_process_queue_def after_request_def)
    from read_status_line_keeps[OF this] show ?thesis by (simp add: call_keeps_def)
  next
    case 2
    with assms(2) have "read_status_line ps reply s = Some s'"
      by (simp add: proxy_http_process_queue_def)
    then show ?thesis by (rule read_status_line_keeps)
  next
    case 3
    with assms(2) have "read_headers ps reply s = Some s'"
      by (simp add: proxy_http_process_queue_def)
    then show ?thesis by (rule read_headers_keeps)
  next
    case 4
    with assms(2) have "s' = read_body ps reply s"
      by (simp add: proxy_http_process_queue_def)
    then show ?thesis by (simp add: read_body_keeps)
  next
    case 5
    with assms(2) have "s' = prompt_loop ps reply s"
      by (simp add: proxy_http_process_queue_def)
    then show ?thesis by (simp add: prompt_loop_keeps)
  qed
qed

lemma run_keeps:
  "finished s \<or> suspended s \<Longrightarrow> run ps s events = Some s' \<Longrightarrow> call_keeps s s'"
proof (induction events arbitrary: s)
  case Nil
  then show ?case by (simp add: call_keeps_def)
next
  case (Cons e events)
  obtain bytes reply where e: "e = (bytes, reply)" by (cases e)
  show ?case
  proof (cases "finished s")
    case True
    with Cons.prems e show ?thesis by (simp add: call_keeps_def)
  next
    case False
    with Cons.prems(1) have su: "suspended (s\<lparr>pn_input := pn_input s @ bytes\<rparr>)"
      by (simp add: suspended_def)
    from Cons.prems(2) False e obtain s1 where
      pq: "proxy_http_process_queue ps reply (s\<lparr>pn_input := pn_input s @ bytes\<rparr>) = Some s1"
      and r: "run ps s1 events = Some s'"
      by (auto split: option.splits)
    from process_queue_keeps[OF su pq] have k1: "call_keeps s s1" by (simp add: call_keeps_def)
    then have "finished s1 \<or> suspended s1" by (simp add: call_keeps_def)
    from Cons.IH[OF this r] k1 show ?thesis by (auto simp: call_keeps_def)
  qed
qed

subsection \<open>The Base64 loop\<close>

lemma base64_encode_atom_3:
  "base64_encode_atom (a # b # c # rest) 3 = base64_encode_atom [a, b, c] 3"
  by (simp add: base64_encode_atom_def)

lemma base64_loop_end: "length inp \<le> i \<Longrightarrow> base64_loop inp i (length inp) out = out"
  by (subst base64_loop.simps) simp

lemma base64_loop_step:
  "i < length inp \<Longrightarrow>
   base64_loop inp i (length inp) out =
     base64_loop inp (i + 3) (length inp)
       (out @ base64_encode_atom (drop i inp) (if length inp - i > 3 then 3 else length inp - i))"
  by (subst base64_loop.simps) simp

lemma base64_loop_drop:
  "drop i inp = xs \<Longrightarrow> base64_loop inp i (length inp) out = out @ base64 xs"
proof (induction xs arbitrary: i out rule: base64.induct)
  case 1
  then show ?case by (simp add: base64_loop_end)
next
  case (2 a)
  from arg_cong[OF 2, of length] have l: "length inp - i = 1" by simp
  then have lt: "i < length inp" and e: "length inp \<le> i + 3" by simp_all
  show ?case
    by (simp only: base64_loop_step[OF lt] base64_loop_end[OF e] 2 l base64.simps) simp
next
  case (3 a b)
  from arg_cong[OF 3, of length] have l: "length inp - i = 2" by simp
  then have lt: "i < length inp" and e: "length inp \<le> i + 3" by simp_all
  show ?case
    by (simp only: base64_loop_step[OF lt] base64_loop_end[OF e] 3 l base64.simps) simp
next
  case (4 a b c rest)
  from arg_cong[OF 4(2), of length] have l: "length inp - i = 3 + length rest" by simp
  then have lt: "i < length inp" by simp
  have "drop (i + 3) inp = drop 3 (drop i inp)"
    by (simp only: drop_drop add.commute[of 3 i])
  also have "\<dots> = rest" by (simp only: 4(2)) simp
  finally have d: "drop (i + 3) inp = rest" .
  have n: "(if length inp - i > 3 then 3 else length inp - i) = 3" using l by simp
  have "base64_loop inp i (length inp) out
        = base64_loop inp (i + 3) (length inp) (out @ base64_encode_atom [a, b, c] 3)"
    by (subst base64_loop_step[OF lt], subst n, subst 4(2), subst base64_encode_atom_3) (rule refl)
  also have "\<dots> = (out @ base64_encode_atom [a, b, c] 3) @ base64 rest"
    by (rule "4.IH"[OF d])
  finally show ?case by simp
qed

lemma base64_loop_all: "base64_loop inp 0 (length inp) out = out @ base64 inp"
  using base64_loop_drop[of 0 inp inp out] by simp

lemma send_auth_output:
  "pn_output (send_auth s) =
     (if tried_no_auth s \<and> (username s \<noteq> [] \<or> password s \<noteq> [])
      then pn_output s @ ''Proxy-Authorization: Basic '' @
           base64 (username s @ '':'' @ password s) @ CRLF
      else pn_output s)"
  by (simp add: send_auth_def Let_def base64_loop_all)

lemma send_auth_eq:
  "send_auth s =
     (if tried_no_auth s then
        (if username s \<noteq> [] \<or> password s \<noteq> []
         then s\<lparr>pn_output := pn_output s @ ''Proxy-Authorization: Basic '' @
                base64 (username s @ '':'' @ password s) @ CRLF\<rparr>
         else s)
      else s\<lparr>tried_no_auth := True\<rparr>)"
  by (simp add: send_auth_def Let_def base64_loop_all)

subsection \<open>Rules for running the model on concrete input\<close>

lemmas token_eval = get_token_def get_separator_def skip_whitespace.simps copy_token.simps
  is_whitespace_def is_separator_def header_kind_def stricmp_def tolower_def c_str_def

lemmas request_eval = send_request_def send_auth_eq connect_prefix_def format_int_def
  base64_encode_atom_def base64_chars_def init_from_conf_def CRLF_def c_str_def

subsection \<open>The status line scan on a line of the strict pattern\<close>

lemma takeWhile_dropWhile_run:
  "list_all P ds \<Longrightarrow> rest = [] \<or> \<not> P (hd rest) \<Longrightarrow>
   takeWhile P (ds @ rest) = ds \<and> dropWhile P (ds @ rest) = rest"
  by (induction ds) (cases rest; simp)+

lemma isdigit_not_space_sign:
  "isdigit c \<Longrightarrow> \<not> isspace c \<and> c \<noteq> CHR ''-'' \<and> c \<noteq> CHR ''+'' \<and> c \<noteq> NUL"
  by (auto simp: isdigit_def isspace_def)

lemma scanf_int_store_in_range:
  "- (2 ^ 31) \<le> v \<Longrightarrow> v < 2 ^ 31 \<Longrightarrow> scanf_int_store v = v"
  by (simp add: scanf_int_store_def Let_def min_def max_def)

lemma digit_val_le: "isdigit c \<Longrightarrow> digit_val c \<le> 9"
  unfolding isdigit_def digit_val_def by linarith

lemma digits_val_three:
  assumes "length ds = 3" "list_all isdigit ds"
  shows "digits_val ds < 1000"
proof -
  from assms(1) obtain a b c where ds: "ds = [a, b, c]"
    by (auto simp: length_Suc_conv numeral_3_eq_3)
  with assms(2) have "digit_val a \<le> 9" "digit_val b \<le> 9" "digit_val c \<le> 9"
    by (simp_all add: digit_val_le)
  then show ?thesis by (simp add: ds digits_val_def)
qed

lemma scan_int_digits:
  assumes "ds \<noteq> []" "list_all isdigit ds" "rest = [] \<or> \<not> isdigit (hd rest)"
  shows "scan_int (ds @ rest) = Some (scanf_int_store (int (digits_val ds)), rest)"
proof -
  obtain d ds' where ds: "ds = d # ds'" using assms(1) by (cases ds) auto
  with assms(2) have d: "isdigit d" by simp
  note n = isdigit_not_space_sign[OF d]
  have sp: "dropWhile isspace (ds @ rest) = ds @ rest" using n ds by simp
  have hd: "hd (ds @ rest) = d" "ds @ rest \<noteq> []" using ds by simp_all
  note run = takeWhile_dropWhile_run[OF assms(2,3)]
  show ?thesis
    unfolding scan_int_def sp Let_def hd using n run assms(1) by simp
qed

lemma c_str_append: "list_all (\<lambda>c. c \<noteq> NUL) a \<Longrightarrow> c_str (a @ b) = a @ c_str b"
  unfolding c_str_def by (induction a) auto

lemma digits_no_NUL: "list_all isdigit ds \<Longrightarrow> list_all (\<lambda>c. c \<noteq> NUL) ds"
  by (induction ds) (auto simp: isdigit_not_space_sign)

lemma c_str_boundary:
  "rest = [] \<or> \<not> P (hd rest) \<Longrightarrow> c_str rest = [] \<or> \<not> P (hd (c_str rest))"
  by (cases rest) (auto simp: c_str_def)

lemma sscanf_status_line_strict:
  assumes resp: "response s = ''HTTP/'' @ majd @ ''.'' @ mind @ '' '' @ std @ rest"
    and maj: "majd \<noteq> []" "list_all isdigit majd"
    and mn: "mind \<noteq> []" "list_all isdigit mind"
    and st: "std \<noteq> []" "list_all isdigit std"
    and rest: "rest = [] \<or> \<not> isdigit (hd rest)"
  shows "sscanf_status_line s =
           (3, scanf_int_store (int (digits_val majd)), scanf_int_store (int (digits_val mind)),
            s\<lparr>http_status_pos := int (7 + length majd + length mind),
              http_status := scanf_int_store (int (digits_val std))\<rparr>)"
proof -
  define rest' where "rest' = c_str rest"
  have rest': "rest' = [] \<or> \<not> isdigit (hd rest')"
    unfolding rest'_def using rest by (rule c_str_boundary)
  have "c_str (response s) = ''HTTP/'' @ c_str (majd @ ''.'' @ mind @ '' '' @ std @ rest)"
    unfolding resp by (simp add: c_str_def)
  also have "c_str (majd @ ''.'' @ mind @ '' '' @ std @ rest)
      = majd @ c_str (''.'' @ mind @ '' '' @ std @ rest)"
    by (rule c_str_append[OF digits_no_NUL[OF maj(2)]])
  also have "c_str (''.'' @ mind @ '' '' @ std @ rest) = ''.'' @ c_str (mind @ '' '' @ std @ rest)"
    by (simp add: c_str_def)
  also have "c_str (mind @ '' '' @ std @ rest) = mind @ c_str ('' '' @ std @ rest)"
    by (rule c_str_append[OF digits_no_NUL[OF mn(2)]])
  also have "c_str ('' '' @ std @ rest) = '' '' @ c_str (std @ rest)"
    by (simp add: c_str_def)
  also have "c_str (std @ rest) = std @ rest'"
    unfolding rest'_def by (rule c_str_append[OF digits_no_NUL[OF st(2)]])
  finally have line: "c_str (response s) = ''HTTP/'' @ majd @ ''.'' @ mind @ '' '' @ std @ rest'" .
  obtain d std' where std: "std = d # std'" using st(1) by (cases std) auto
  with st(2) have "isdigit d" by simp
  then have dsp: "\<not> isspace d" by (simp add: isdigit_not_space_sign)
  have s1: "scan_int (majd @ ''.'' @ mind @ '' '' @ std @ rest')
        = Some (scanf_int_store (int (digits_val majd)), ''.'' @ mind @ '' '' @ std @ rest')"
    by (rule scan_int_digits[OF maj]) (simp add: isdigit_def)
  have s2: "scan_int (mind @ '' '' @ std @ rest')
        = Some (scanf_int_store (int (digits_val mind)), '' '' @ std @ rest')"
    by (rule scan_int_digits[OF mn]) (simp add: isdigit_def)
  have s3: "scan_int (std @ rest') = Some (scanf_int_store (int (digits_val std)), rest')"
    by (rule scan_int_digits[OF st rest'])
  have sp: "dropWhile isspace ('' '' @ std @ rest') = std @ rest'"
    using dsp std by (simp add: isspace_def)
  show ?thesis
    unfolding sscanf_status_line_def line Let_def
    using s1 s2 s3 sp by simp
qed

lemma parse_status_line_strict:
  assumes "response s = ''HTTP/'' @ majd @ ''.'' @ mind @ '' '' @ std @ rest"
    "majd \<noteq> []" "list_all isdigit majd" "mind \<noteq> []" "list_all isdigit mind"
    "std \<noteq> []" "list_all isdigit std" "rest = [] \<or> \<not> isdigit (hd rest)"
  shows "parse_status_line s =
           Continue (s\<lparr>http_status_pos := int (7 + length majd + length mind),
                       http_status := scanf_int_store (int (digits_val std))\<rparr>)"
  by (auto simp: parse_status_line_def sscanf_status_line_strict[OF assms])

text \<open>A status beyond the range of \<^verbatim>\<open>int\<close> is stored cut to 32 bits.\<close>

lemma status_beyond_int_is_cut:
  "parse_status_line ((proxy_http_new False)\<lparr>response := ''HTTP/1.1 4294967496 OK''\<rparr>) =
     Continue ((proxy_http_new False)
       \<lparr>response := ''HTTP/1.1 4294967496 OK'', http_status_pos := 9, http_status := 200\<rparr>)"
  by (simp add: parse_status_line_def scan_eval proxy_http_new_def)

lemma matches_status_pattern_shape:
  assumes "matches_status_pattern line"
  shows "\<exists>majd mind std rest.
           line = ''HTTP/'' @ majd @ ''.'' @ mind @ '' '' @ std @ rest \<and>
           majd \<noteq> [] \<and> list_all isdigit majd \<and> mind \<noteq> [] \<and> list_all isdigit mind \<and>
           length std = 3 \<and> list_all isdigit std \<and> (rest = [] \<or> \<not> isdigit (hd rest))"
proof -
  define r where "r = drop 5 line"
  define majd where "majd = takeWhile isdigit r"
  define r1 where "r1 = dropWhile isdigit r"
  define mind where "mind = takeWhile isdigit (drop 1 r1)"
  define r2 where "r2 = dropWhile isdigit (drop 1 r1)"
  define std where "std = takeWhile isdigit (drop 1 r2)"
  define rest where "rest = dropWhile isdigit (drop 1 r2)"
  from assms have p: "take 5 line = ''HTTP/''" "majd \<noteq> []" "take 1 r1 = ''.''" "mind \<noteq> []"
    "take 1 r2 = '' ''" "length std = 3"
    unfolding matches_status_pattern_def Let_def r_def majd_def r1_def mind_def r2_def std_def
    by simp_all
  have "line = take 5 line @ r" by (simp add: r_def)
  moreover have "r = majd @ r1" by (simp add: majd_def r1_def)
  moreover have "r1 = take 1 r1 @ drop 1 r1" by simp
  moreover have "drop 1 r1 = mind @ r2" by (simp add: mind_def r2_def)
  moreover have "r2 = take 1 r2 @ drop 1 r2" by simp
  moreover have "drop 1 r2 = std @ rest" by (simp add: std_def rest_def)
  ultimately have "line = ''HTTP/'' @ majd @ ''.'' @ mind @ '' '' @ std @ rest"
    using p by (metis append_assoc)
  moreover have "list_all isdigit majd" "list_all isdigit mind" "list_all isdigit std"
    by (simp_all add: majd_def mind_def std_def list_all_iff) (meson set_takeWhileD)+
  moreover have "rest = [] \<or> \<not> isdigit (hd rest)"
    unfolding rest_def by (metis hd_dropWhile)
  ultimately show ?thesis using p by blast
qed

subsection \<open>A header line with a name, a colon and a token\<close>

lemma header_line_tokens:
  assumes hdr: "header s = ws0 @ fname @ ws1 @ '':'' @ ws2 @ tok @ rest"
    and ws: "list_all is_whitespace ws0" "list_all is_whitespace ws1" "list_all is_whitespace ws2"
    and fn: "fname \<noteq> []" "list_all token_char fname"
    and tok: "tok \<noteq> []" "list_all token_char tok"
    and rest: "rest = [] \<or> \<not> token_char (hd rest)"
  shows "get_token (s\<lparr>header_pos := 0\<rparr>) =
           (True, s\<lparr>header_pos := length ws0 + length fname, token := fname\<rparr>)"
    and "get_separator (s\<lparr>header_pos := length ws0 + length fname, token := fname\<rparr>) (CHR '':'') =
           (True, s\<lparr>header_pos := Suc (length ws0 + length fname + length ws1), token := fname\<rparr>)"
    and "get_token (s\<lparr>header_pos := Suc (length ws0 + length fname + length ws1), token := fname\<rparr>) =
           (True, s\<lparr>header_pos := Suc (length ws0 + length fname + length ws1) + length ws2 +
                                     length tok,
                      token := tok\<rparr>)"
proof -
  have b1: "ws1 @ '':'' @ ws2 @ tok @ rest = [] \<or> \<not> token_char (hd (ws1 @ '':'' @ ws2 @ tok @ rest))"
    using ws(2) by (cases ws1) (simp_all add: token_char_def is_separator_def)
  show "get_token (s\<lparr>header_pos := 0\<rparr>) =
           (True, s\<lparr>header_pos := length ws0 + length fname, token := fname\<rparr>)"
    using get_token_shape[of "s\<lparr>header_pos := 0\<rparr>" "[]" ws0 fname "ws1 @ '':'' @ ws2 @ tok @ rest"]
      hdr ws(1) fn b1 by simp
  show "get_separator (s\<lparr>header_pos := length ws0 + length fname, token := fname\<rparr>) (CHR '':'') =
           (True, s\<lparr>header_pos := Suc (length ws0 + length fname + length ws1), token := fname\<rparr>)"
    using get_separator_shape[of "s\<lparr>header_pos := length ws0 + length fname, token := fname\<rparr>"
        "ws0 @ fname" ws1 "CHR '':''" "ws2 @ tok @ rest"]
      hdr ws(2) by (simp add: is_whitespace_def)
  show "get_token (s\<lparr>header_pos := Suc (length ws0 + length fname + length ws1), token := fname\<rparr>) =
           (True, s\<lparr>header_pos := Suc (length ws0 + length fname + length ws1) + length ws2 +
                                     length tok,
                      token := tok\<rparr>)"
    using get_token_shape[of "s\<lparr>header_pos := Suc (length ws0 + length fname + length ws1), token := fname\<rparr>"
        "ws0 @ fname @ ws1 @ '':''" ws2 tok rest]
      hdr ws(3) tok rest by simp
qed

lemma header_kind_proxy_authenticate:
  "stricmp fname ''Proxy-Authenticate'' = 0 \<Longrightarrow> header_kind fname = HDR_PROXY_AUTHENTICATE"
  by (simp add: header_kind_def)

lemma header_kind_content_length:
  "stricmp fname ''Content-Length'' = 0 \<Longrightarrow> header_kind fname = HDR_CONTENT_LENGTH"
  by (auto simp: header_kind_def stricmp_def c_str_def tolower_def split: if_splits)

subsection \<open>\<^verbatim>\<open>strtoumax\<close> on a token\<close>

lemma strtoumax_digit_prefix:
  assumes "ds \<noteq> []" "list_all isdigit ds" "rest = [] \<or> \<not> isdigit (hd rest)"
    "digits_val ds < 2 ^ 64"
  shows "strtoumax (ds @ rest) = digits_val ds"
proof -
  define rest' where "rest' = c_str rest"
  have rest': "rest' = [] \<or> \<not> isdigit (hd rest')"
    unfolding rest'_def using assms(3) by (rule c_str_boundary)
  have line: "c_str (ds @ rest) = ds @ rest'"
    unfolding rest'_def by (rule c_str_append[OF digits_no_NUL[OF assms(2)]])
  obtain d ds' where ds: "ds = d # ds'" using assms(1) by (cases ds) auto
  with assms(2) have d: "isdigit d" by simp
  note n = isdigit_not_space_sign[OF d]
  have sp: "dropWhile isspace (ds @ rest') = ds @ rest'" using n ds by simp
  have hd: "hd (ds @ rest') = d" "ds @ rest' \<noteq> []" using ds by simp_all
  note run = takeWhile_dropWhile_run[OF assms(2) rest']
  show ?thesis
    unfolding strtoumax_def line sp Let_def hd using n run assms(1,4) by simp
qed

lemma strtoumax_no_digit:
  assumes "\<not> isdigit (hd tok)" "\<not> isspace (hd tok)" "hd tok \<noteq> CHR ''-''" "hd tok \<noteq> CHR ''+''"
  shows "strtoumax tok = 0"
proof (cases "c_str tok")
  case Nil
  then show ?thesis by (simp add: strtoumax_def)
next
  case (Cons c cs)
  then have c: "c = hd tok" by (cases tok) (auto simp: c_str_def split: if_splits)
  with assms Cons show ?thesis by (simp add: strtoumax_def)
qed

lemma strtoumax_bound: "strtoumax tok < 2 ^ 64"
  by (simp add: strtoumax_def Let_def)

subsection \<open>A suspended call without new input\<close>

text \<open>
  Where the coroutine waits for a line or for the body and no byte has arrived, a call
  returns with the negotiator exactly as it was.
\<close>

lemma waiting_for_line_unchanged:
  assumes "crLine s = 223 \<or> crLine s = 246" "pn_input s = []"
  shows "proxy_http_process_queue ps reply s = Some s"
proof -
  have "header_loop s = Some (Return s)" if "crLine s = 246"
    using that assms(2) by (subst header_loop.simps) (simp add: read_line_empty)
  then show ?thesis
    using assms
    by (auto simp: proxy_http_process_queue_def read_status_line_def read_headers_def
        read_line_empty)
qed

lemma waiting_for_body_unchanged:
  assumes "crLine s = 295" "length (pn_input s) < content_length s"
  shows "proxy_http_process_queue ps reply s = Some s"
  using assms
  by (simp add: proxy_http_process_queue_def read_body_def bufchain_try_consume_def)

subsection \<open>C1: every call returns\<close>

text \<open>
  C1 says that for every finite input every call of the negotiator, and of the line
  reader in particular, returns, with a result or suspended.  The code does not: with
  a folded header in the response (a header line followed by a line that starts with a
  space) the call that reads the header section never returns.  The negotiator below
  has sent its request (it resumes at line 213) and the whole response has arrived.
\<close>

theorem process_queue_folded_header_never_returns:
  "proxy_http_process_queue ps reply
     (s\<lparr>crLine := 213,
        pn_input := ''HTTP/1.1 200 OK'' @ CRLF @ ''X-Note: a'' @ CRLF @ '' b'' @ CRLF @ CRLF\<rparr>)
   = None"
  apply (simp add: proxy_http_process_queue_def after_request_def read_status_line_def
      CRLF_def read_line_eval strbuf_chomp_def)
  apply (simp add: parse_status_line_def scan_eval)
  apply (simp add: read_headers_def)
  apply (subst header_loop.simps)
  apply (simp add: read_line_eval)
  done

subsection \<open>C2: header folding\<close>

text \<open>
  C2 says that in header mode, when the accumulated line ends in a newline and the next
  byte is a space or a tab, \<^verbatim>\<open>read_line\<close> consumes that byte, appends it and goes on with
  the same logical line.  The code neither consumes nor appends it: the loop runs again
  on the same state, for ever.
\<close>

theorem read_line_fold_never_returns:
  "read_line (CHR '' '' # rest) (out @ [LF]) True = None \<and>
   read_line (TAB # rest) (out @ [LF]) True = None"
  by (simp add: read_line_header_fold)

subsection \<open>C3: the Proxy-Authorization header\<close>

text \<open>
  C3: the first CONNECT request of a negotiation never carries a \<^verbatim>\<open>Proxy-Authorization\<close>
  header, whatever the configured credentials; every later request, if the username or
  the password is non-empty, carries exactly the line
  \<^verbatim>\<open>Proxy-Authorization: Basic\<close> base64(username \<^verbatim>\<open>:\<close> password) and CRLF; and every
  request ends with a blank CRLF line.

  Every request is written by \<^term>\<open>send_request\<close>.  It is the first one exactly when
  \<^verbatim>\<open>tried_no_auth\<close> is still false, as it is in the first call on a new negotiator; the
  flag is true after any request and no later call of the negotiation clears it.
\<close>

theorem connect_request_authorization:
  "connect_prefix ps =
     ''CONNECT '' @ c_str (remote_addr ps) @ '':'' @ format_int (remote_port ps) @
     '' HTTP/1.1'' @ CRLF @
     ''Host: '' @ c_str (remote_addr ps) @ '':'' @ format_int (remote_port ps) @ CRLF \<and>
   proxy_http_process_queue ps reply (proxy_http_new itr) =
     Some (send_request ps (init_from_conf ps (proxy_http_new itr))) \<and>
   pn_output (send_request ps (init_from_conf ps (proxy_http_new itr))) =
     connect_prefix ps @ CRLF \<and>
   (\<not> tried_no_auth s \<longrightarrow>
      pn_output (send_request ps s) = pn_output s @ connect_prefix ps @ CRLF) \<and>
   (tried_no_auth s \<and> (username s \<noteq> [] \<or> password s \<noteq> []) \<longrightarrow>
      pn_output (send_request ps s) =
        pn_output s @ connect_prefix ps @ ''Proxy-Authorization: Basic '' @
        base64 (username s @ '':'' @ password s) @ CRLF @ CRLF) \<and>
   (\<exists>req. pn_output (send_request ps s) = pn_output s @ req @ CRLF @ CRLF) \<and>
   tried_no_auth (send_request ps s) \<and>
   (suspended s \<and> tried_no_auth s \<and> run ps s events = Some s' \<longrightarrow> tried_no_auth s')"
proof -
  have p: "connect_prefix ps =
     ''CONNECT '' @ c_str (remote_addr ps) @ '':'' @ format_int (remote_port ps) @
     '' HTTP/1.1'' @ CRLF @
     ''Host: '' @ c_str (remote_addr ps) @ '':'' @ format_int (remote_port ps) @ CRLF"
    by (simp add: connect_prefix_def Let_def)
  have first: "proxy_http_process_queue ps reply (proxy_http_new itr) =
     Some (send_request ps (init_from_conf ps (proxy_http_new itr)))"
    by (simp add: proxy_http_process_queue_def proxy_http_new_def)
  have nt: "\<not> tried_no_auth (init_from_conf ps (proxy_http_new itr))"
    by (simp add: init_from_conf_def proxy_http_new_def Let_def)
  have no: "pn_output (init_from_conf ps (proxy_http_new itr)) = []"
    by (simp add: init_from_conf_def proxy_http_new_def Let_def)
  have out: "\<And>t. pn_output (send_request ps t) =
      pn_output t @ connect_prefix ps @
      (if tried_no_auth t \<and> (username t \<noteq> [] \<or> password t \<noteq> [])
       then ''Proxy-Authorization: Basic '' @ base64 (username t @ '':'' @ password t) @ CRLF
       else []) @ CRLF"
    by (simp add: send_request_def send_auth_eq Let_def)
  have ex: "\<exists>req. pn_output (send_request ps s) = pn_output s @ req @ CRLF @ CRLF"
  proof (cases "tried_no_auth s \<and> (username s \<noteq> [] \<or> password s \<noteq> [])")
    case True
    then have "pn_output (send_request ps s) =
        pn_output s @
        (connect_prefix ps @ ''Proxy-Authorization: Basic '' @
         base64 (username s @ '':'' @ password s)) @ CRLF @ CRLF"
      by (simp add: out)
    then show ?thesis by blast
  next
    case False
    then have "pn_output (send_request ps s) =
        pn_output s @
        (''CONNECT '' @ c_str (remote_addr ps) @ '':'' @ format_int (remote_port ps) @
         '' HTTP/1.1'' @ CRLF @
         ''Host: '' @ c_str (remote_addr ps) @ '':'' @ format_int (remote_port ps)) @
        CRLF @ CRLF"
      by (auto simp: out p)
    then show ?thesis by blast
  qed
  have keep: "suspended s \<and> tried_no_auth s \<and> run ps s events = Some s' \<longrightarrow> tried_no_auth s'"
    using run_keeps[of s ps events s'] by (auto simp: call_keeps_def)
  show ?thesis
    using p first nt no ex keep by (simp add: out send_request_flags)
qed

theorem connect_request_authorization_witness:
  "pn_output (send_request example_socket (init_from_conf example_socket (proxy_http_new False))) =
     ''CONNECT example.com:22 HTTP/1.1'' @ CRLF @ ''Host: example.com:22'' @ CRLF @ CRLF \<and>
   pn_output
     (send_request example_socket
        ((proxy_http_new False)\<lparr>tried_no_auth := True, username := ''user'',
           password := ''pass''\<rparr>)) =
     ''CONNECT example.com:22 HTTP/1.1'' @ CRLF @ ''Host: example.com:22'' @ CRLF @
     ''Proxy-Authorization: Basic dXNlcjpwYXNz'' @ CRLF @ CRLF \<and>
   (\<exists>s'. run example_socket
           ((proxy_http_new True)\<lparr>crLine := 213, tried_no_auth := True\<rparr>)
           [(''HTTP/1.1 407 Authenticate'' @ CRLF @ CRLF @ ''X'', Answered [''u'', ''p''])]
         = Some s' \<and> tried_no_auth s')"
proof -
  let ?s0 = "init_from_conf example_socket (proxy_http_new False)"
  let ?s1 = "(proxy_http_new False)\<lparr>tried_no_auth := True, username := ''user'',
           password := ''pass''\<rparr>"
  let ?s2 = "(proxy_http_new True)\<lparr>crLine := 213, tried_no_auth := True\<rparr>"
  let ?ev = "[(''HTTP/1.1 407 Authenticate'' @ CRLF @ CRLF @ ''X'', Answered [''u'', ''p''])]"
  have a: "pn_output (send_request example_socket ?s0) =
     ''CONNECT example.com:22 HTTP/1.1'' @ CRLF @ ''Host: example.com:22'' @ CRLF @ CRLF"
    using connect_request_authorization[of example_socket Pending False ?s0]
    by (simp add: proxy_http_new_def request_eval example_socket_def)
  have b: "pn_output (send_request example_socket ?s1) =
     ''CONNECT example.com:22 HTTP/1.1'' @ CRLF @ ''Host: example.com:22'' @ CRLF @
     ''Proxy-Authorization: Basic dXNlcjpwYXNz'' @ CRLF @ CRLF"
    using connect_request_authorization[of example_socket Pending False ?s1]
    by (simp add: proxy_http_new_def connect_prefix_def format_int_def base64_encode_atom_def
        base64_chars_def CRLF_def c_str_def example_socket_def)
  have "\<exists>s'. run example_socket ?s2 ?ev = Some s'"
    apply (simp add: finished_def proxy_http_new_def proxy_http_process_queue_def
        after_request_def read_status_line_def CRLF_def read_line_eval strbuf_chomp_def)
    apply (simp add: parse_status_line_def scan_eval)
    apply (simp add: read_headers_def)
    apply (subst header_loop.simps)
    apply (simp add: read_line_eval strbuf_chomp_def)
    apply (simp add: process_header_def token_eval)
    done
  then obtain s' where r: "run example_socket ?s2 ?ev = Some s'" by blast
  have "suspended ?s2 \<and> tried_no_auth ?s2" by (simp add: suspended_def)
  with r connect_request_authorization[of example_socket Pending False ?s2 ?ev s']
  have "tried_no_auth s'" by blast
  with r a b show ?thesis by blast
qed

subsection \<open>C4: the decision on status 407\<close>

text \<open>
  C4: on status 407 the code decides in this order.  If the connection will close, the
  negotiation ends with the error that authentication is required but cannot be given.
  Otherwise, if the configured credentials have not been tried, the pending flag is
  cleared and the request is sent again, with those credentials; this happens once,
  since no later call of the negotiation sets the flag again.  Otherwise, without an
  interactor, the negotiation ends with that kind of error too.  Otherwise the user is
  prompted: for the username only if it is empty, and always for the password,
  without echo.
\<close>

theorem proxy_auth_required_decision:
  "(http_status s = 407 \<and> connection_close s \<longrightarrow>
      decide ps reply s =
        s\<lparr>pn_error := Some ''HTTP proxy closed connection after asking for authentication'',
          crLine := 0\<rparr>) \<and>
   (http_status s = 407 \<and> \<not> connection_close s \<and> try_auth_from_conf s \<longrightarrow>
      decide ps reply s = send_request ps (s\<lparr>try_auth_from_conf := False\<rparr>) \<and>
      \<not> try_auth_from_conf (decide ps reply s) \<and>
      crLine (decide ps reply s) = 213 \<and>
      pn_error (decide ps reply s) = pn_error s \<and>
      username (decide ps reply s) = username s \<and>
      password (decide ps reply s) = password s \<and>
      prompts (decide ps reply s) = prompts s \<and>
      (tried_no_auth s \<and> (username s \<noteq> [] \<or> password s \<noteq> []) \<longrightarrow>
         pn_output (decide ps reply s) =
           pn_output s @ connect_prefix ps @ ''Proxy-Authorization: Basic '' @
           base64 (username s @ '':'' @ password s) @ CRLF @ CRLF)) \<and>
   (http_status s = 407 \<and> \<not> connection_close s \<and> \<not> try_auth_from_conf s \<and> \<not> pn_itr s \<longrightarrow>
      decide ps reply s =
        s\<lparr>pn_error := Some ''HTTP proxy requested authentication which we do not have'',
          crLine := 0\<rparr>) \<and>
   (http_status s = 407 \<and> \<not> connection_close s \<and> \<not> try_auth_from_conf s \<and> pn_itr s \<longrightarrow>
      decide ps reply s = prompt_loop ps reply (make_prompts s) \<and>
      prompts (make_prompts s) =
        Some \<lparr>to_server = True, from_server = False, name = ''HTTP proxy authentication'',
              prompts_list =
                (if username s = []
                 then [\<lparr>prompt = ''Proxy username: '', echo = True, result = []\<rparr>] else []) @
                [\<lparr>prompt = ''Proxy password: '', echo = False, result = []\<rparr>]\<rparr> \<and>
      decide ps Pending s = (make_prompts s)\<lparr>crLine := 357\<rparr> \<and>
      pn_output (decide ps Pending s) = pn_output s) \<and>
   (suspended s \<and> \<not> try_auth_from_conf s \<and> run ps s events = Some s' \<longrightarrow>
      \<not> try_auth_from_conf s')"
proof -
  have keep: "suspended s \<and> \<not> try_auth_from_conf s \<and> run ps s events = Some s' \<longrightarrow>
      \<not> try_auth_from_conf s'"
    using run_keeps[of s ps events s'] by (auto simp: call_keeps_def)
  have mp: "prompts (make_prompts s) =
        Some \<lparr>to_server = True, from_server = False, name = ''HTTP proxy authentication'',
              prompts_list =
                (if username s = []
                 then [\<lparr>prompt = ''Proxy username: '', echo = True, result = []\<rparr>] else []) @
                [\<lparr>prompt = ''Proxy password: '', echo = False, result = []\<rparr>]\<rparr>"
    by (simp add: make_prompts_def add_prompt_def Let_def)
  have mo: "pn_output (make_prompts s) = pn_output s"
    by (simp add: make_prompts_def add_prompt_def Let_def)
  have sr: "tried_no_auth s \<and> (username s \<noteq> [] \<or> password s \<noteq> []) \<longrightarrow>
      pn_output (send_request ps (s\<lparr>try_auth_from_conf := False\<rparr>)) =
           pn_output s @ connect_prefix ps @ ''Proxy-Authorization: Basic '' @
           base64 (username s @ '':'' @ password s) @ CRLF @ CRLF"
    by (simp add: send_request_def send_auth_eq Let_def)
  have sf: "username (send_request ps (s\<lparr>try_auth_from_conf := False\<rparr>)) = username s \<and>
      password (send_request ps (s\<lparr>try_auth_from_conf := False\<rparr>)) = password s \<and>
      prompts (send_request ps (s\<lparr>try_auth_from_conf := False\<rparr>)) = prompts s"
    by (simp add: send_request_def send_auth_eq Let_def)
  show ?thesis
    using keep mp mo sr sf
    by (simp add: decide_def crStopV_def prompt_loop_def send_request_flags)
qed

theorem proxy_auth_required_decision_witness:
  "pn_error (decide example_socket Pending
      ((proxy_http_new True)\<lparr>http_status := 407, connection_close := True,
         try_auth_from_conf := True\<rparr>)) =
     Some ''HTTP proxy closed connection after asking for authentication'' \<and>
   pn_output (decide example_socket Pending
      ((proxy_http_new True)\<lparr>http_status := 407, try_auth_from_conf := True,
         tried_no_auth := True, username := ''user'', password := ''pass''\<rparr>)) =
     ''CONNECT example.com:22 HTTP/1.1'' @ CRLF @ ''Host: example.com:22'' @ CRLF @
     ''Proxy-Authorization: Basic dXNlcjpwYXNz'' @ CRLF @ CRLF \<and>
   pn_error (decide example_socket Pending ((proxy_http_new False)\<lparr>http_status := 407\<rparr>)) =
     Some ''HTTP proxy requested authentication which we do not have'' \<and>
   prompts (decide example_socket Pending
      ((proxy_http_new True)\<lparr>http_status := 407, username := ''user''\<rparr>)) =
     Some \<lparr>to_server = True, from_server = False, name = ''HTTP proxy authentication'',
           prompts_list = [\<lparr>prompt = ''Proxy password: '', echo = False, result = []\<rparr>]\<rparr> \<and>
   (\<exists>s'. run example_socket
           ((proxy_http_new True)\<lparr>crLine := 213, tried_no_auth := True\<rparr>)
           [(''HTTP/1.1 407 Authenticate'' @ CRLF @ CRLF @ ''X'', Pending)]
         = Some s' \<and> \<not> try_auth_from_conf s')"
proof -
  let ?a = "(proxy_http_new True)\<lparr>http_status := 407, connection_close := True,
         try_auth_from_conf := True\<rparr>"
  let ?b = "(proxy_http_new True)\<lparr>http_status := 407, try_auth_from_conf := True,
         tried_no_auth := True, username := ''user'', password := ''pass''\<rparr>"
  let ?c = "(proxy_http_new False)\<lparr>http_status := 407\<rparr>"
  let ?d = "(proxy_http_new True)\<lparr>http_status := 407, username := ''user''\<rparr>"
  let ?e = "(proxy_http_new True)\<lparr>crLine := 213, tried_no_auth := True\<rparr>"
  let ?ev = "[(''HTTP/1.1 407 Authenticate'' @ CRLF @ CRLF @ ''X'', Pending)]"
  have a: "pn_error (decide example_socket Pending ?a) =
     Some ''HTTP proxy closed connection after asking for authentication''"
    using proxy_auth_required_decision[of ?a example_socket Pending]
    by (simp add: proxy_http_new_def)
  have b: "pn_output (decide example_socket Pending ?b) =
     ''CONNECT example.com:22 HTTP/1.1'' @ CRLF @ ''Host: example.com:22'' @ CRLF @
     ''Proxy-Authorization: Basic dXNlcjpwYXNz'' @ CRLF @ CRLF"
    using proxy_auth_required_decision[of ?b example_socket Pending]
    by (simp add: proxy_http_new_def request_eval example_socket_def)
  have c: "pn_error (decide example_socket Pending ?c) =
     Some ''HTTP proxy requested authentication which we do not have''"
    using proxy_auth_required_decision[of ?c example_socket Pending]
    by (simp add: proxy_http_new_def)
  have d: "prompts (decide example_socket Pending ?d) =
     Some \<lparr>to_server = True, from_server = False, name = ''HTTP proxy authentication'',
           prompts_list = [\<lparr>prompt = ''Proxy password: '', echo = False, result = []\<rparr>]\<rparr>"
    using proxy_auth_required_decision[of ?d example_socket Pending]
    by (simp add: proxy_http_new_def prompt_loop_def)
  have "\<exists>s'. run example_socket ?e ?ev = Some s'"
    apply (simp add: finished_def proxy_http_new_def proxy_http_process_queue_def
        after_request_def read_status_line_def CRLF_def read_line_eval strbuf_chomp_def)
    apply (simp add: parse_status_line_def scan_eval)
    apply (simp add: read_headers_def)
    apply (subst header_loop.simps)
    apply (simp add: read_line_eval strbuf_chomp_def)
    apply (simp add: process_header_def token_eval)
    done
  then obtain s' where r: "run example_socket ?e ?ev = Some s'" by blast
  have "suspended ?e \<and> \<not> try_auth_from_conf ?e" by (simp add: suspended_def proxy_http_new_def)
  with r proxy_auth_required_decision[of ?e example_socket Pending ?ev s']
  have "\<not> try_auth_from_conf s'" by blast
  with r a b c d show ?thesis by blast
qed

subsection \<open>C5: the close default before HTTP/1.1\<close>

text \<open>
  C5: after a status line whose version predates 1.1 the close flag is true by default,
  so that an HTTP/1.0 response with status 407 and no \<^verbatim>\<open>Connection\<close> header ends the
  negotiation with an error even when configured credentials have not been tried.
  The comment at line 236 says so, but the condition of line 235,
  \<^verbatim>\<open>maj_ver < 1 && (maj_ver == 1 && min_ver < 1)\<close>, holds for no version: parsing the status
  line never changes the flag, and on that response the code sends the request again
  with the configured credentials.
\<close>

theorem http_1_0_does_not_set_connection_close:
  "connection_close (flow_state (parse_status_line s)) = connection_close s \<and>
   (\<exists>s'. run example_socket (proxy_http_new False)
           [([], Pending),
            (''HTTP/1.0 407 Proxy Authentication Required'' @ CRLF @ CRLF @ ''X'', Pending)]
         = Some s' \<and>
         \<not> connection_close s' \<and> pn_error s' = None \<and> crLine s' = 213 \<and>
         http_status s' = 407 \<and> \<not> try_auth_from_conf s' \<and>
         pn_output s' =
           ''CONNECT example.com:22 HTTP/1.1'' @ CRLF @ ''Host: example.com:22'' @ CRLF @ CRLF @
           ''CONNECT example.com:22 HTTP/1.1'' @ CRLF @ ''Host: example.com:22'' @ CRLF @
           ''Proxy-Authorization: Basic dXNlcjpwYXNz'' @ CRLF @ CRLF)"
proof -
  have "connection_close (flow_state (parse_status_line s)) = connection_close s"
    by (simp add: parse_status_line_def sscanf_status_line_def Let_def crStopV_def
        split: option.splits prod.splits)
  moreover have "\<exists>s'. run example_socket (proxy_http_new False)
           [([], Pending),
            (''HTTP/1.0 407 Proxy Authentication Required'' @ CRLF @ CRLF @ ''X'', Pending)]
         = Some s' \<and>
         \<not> connection_close s' \<and> pn_error s' = None \<and> crLine s' = 213 \<and>
         http_status s' = 407 \<and> \<not> try_auth_from_conf s' \<and>
         pn_output s' =
           ''CONNECT example.com:22 HTTP/1.1'' @ CRLF @ ''Host: example.com:22'' @ CRLF @ CRLF @
           ''CONNECT example.com:22 HTTP/1.1'' @ CRLF @ ''Host: example.com:22'' @ CRLF @
           ''Proxy-Authorization: Basic dXNlcjpwYXNz'' @ CRLF @ CRLF"
    apply (simp add: finished_def proxy_http_new_def proxy_http_process_queue_def
        request_eval example_socket_def)
    apply (simp add: after_request_def read_status_line_def read_line_eval strbuf_chomp_def)
    apply (simp add: parse_status_line_def scan_eval)
    apply (simp add: read_headers_def)
    apply (subst header_loop.simps)
    apply (simp add: read_line_eval strbuf_chomp_def)
    apply (simp add: process_header_def token_eval)
    apply (simp add: read_body_def bufchain_try_consume_def decide_def request_eval)
    done
  ultimately show ?thesis by blast
qed

subsection \<open>C6: the authentication scheme\<close>

text \<open>
  C6: when the first token of a \<^verbatim>\<open>Proxy-Authenticate\<close> header is \<^verbatim>\<open>Basic\<close>, compared without
  regard to case, the negotiation goes on unchanged; when it is anything else, such as
  \<^verbatim>\<open>Digest\<close>, the negotiation ends at once with the error that the scheme is not
  supported, and nothing is sent again.

  The header line is any line made of optional white space, a name that \<^verbatim>\<open>stricmp\<close>
  equates with \<^verbatim>\<open>Proxy-Authenticate\<close>, a colon with optional white space around it, and a
  token.  The code compares the token as a C string, that is up to its first NUL byte if
  it has one.  In the first case only the scratch fields of the tokenizer change; in
  the second the coroutine stops (\<^verbatim>\<open>crLine\<close> 0) with the error set and the output as it
  was.
\<close>

theorem proxy_authenticate_scheme:
  assumes "header s = ws0 @ fname @ ws1 @ '':'' @ ws2 @ tok @ rest"
    and "list_all is_whitespace ws0" "list_all is_whitespace ws1" "list_all is_whitespace ws2"
    and "fname \<noteq> []" "list_all token_char fname" "stricmp fname ''Proxy-Authenticate'' = 0"
    and "tok \<noteq> []" "list_all token_char tok" "rest = [] \<or> \<not> token_char (hd rest)"
  shows "process_header s =
           (if map tolower (c_str tok) = ''basic''
            then Continue
                   (s\<lparr>header_pos := length (ws0 @ fname @ ws1 @ '':'' @ ws2 @ tok),
                      token := tok\<rparr>)
            else Return
                   (s\<lparr>header_pos := length (ws0 @ fname @ ws1 @ '':'' @ ws2 @ tok),
                      token := tok,
                      pn_error :=
                        Some (''HTTP proxy asked for unsupported authentication type '' @
                              [CHR 0x27] @ c_str tok @ [CHR 0x27]),
                      crLine := 0\<rparr>))"
proof -
  note tk = header_line_tokens[OF assms(1,2,3,4,5,6,8,9,10)]
  have k: "header_kind fname = HDR_PROXY_AUTHENTICATE"
    using assms(7) by (rule header_kind_proxy_authenticate)
  have b: "(stricmp tok ''Basic'' = 0) = (map tolower (c_str tok) = ''basic'')"
    by (simp add: stricmp_def c_str_def tolower_def)
  show ?thesis
    unfolding process_header_def Let_def tk(1) prod.case
    by (simp add: k tk(2) tk(3) b crStopV_def)
qed

theorem proxy_authenticate_scheme_witness:
  "process_header ((proxy_http_new False)\<lparr>header := ''Proxy-Authenticate: Digest realm=x''\<rparr>) =
     Return ((proxy_http_new False)
       \<lparr>header := ''Proxy-Authenticate: Digest realm=x'', header_pos := 26, token := ''Digest'',
        pn_error := Some (''HTTP proxy asked for unsupported authentication type '' @
                          [CHR 0x27] @ ''Digest'' @ [CHR 0x27]),
        crLine := 0\<rparr>) \<and>
   process_header ((proxy_http_new False)\<lparr>header := ''proxy-authenticate : BASIC realm=x''\<rparr>) =
     Continue ((proxy_http_new False)
       \<lparr>header := ''proxy-authenticate : BASIC realm=x'', header_pos := 26, token := ''BASIC''\<rparr>) \<and>
   (\<exists>s'. run example_socket (proxy_http_new True)
           [([], Pending),
            (''HTTP/1.1 407 Authenticate'' @ CRLF @ ''Proxy-Authenticate: Digest realm=x'' @ CRLF @
             CRLF @ ''X'', Pending)]
         = Some s' \<and>
         pn_error s' = Some (''HTTP proxy asked for unsupported authentication type '' @
                             [CHR 0x27] @ ''Digest'' @ [CHR 0x27]) \<and>
         crLine s' = 0 \<and>
         pn_output s' =
           ''CONNECT example.com:22 HTTP/1.1'' @ CRLF @ ''Host: example.com:22'' @ CRLF @ CRLF)"
proof -
  have a: "process_header ((proxy_http_new False)\<lparr>header := ''Proxy-Authenticate: Digest realm=x''\<rparr>) =
     Return ((proxy_http_new False)
       \<lparr>header := ''Proxy-Authenticate: Digest realm=x'', header_pos := 26, token := ''Digest'',
        pn_error := Some (''HTTP proxy asked for unsupported authentication type '' @
                          [CHR 0x27] @ ''Digest'' @ [CHR 0x27]),
        crLine := 0\<rparr>)"
    using proxy_authenticate_scheme
      [of "(proxy_http_new False)\<lparr>header := ''Proxy-Authenticate: Digest realm=x''\<rparr>"
          "[]" "''Proxy-Authenticate''" "[]" "'' ''" "''Digest''" "'' realm=x''"]
    by (simp add: token_char_def is_whitespace_def is_separator_def stricmp_def tolower_def
        c_str_def)
  have b: "process_header ((proxy_http_new False)\<lparr>header := ''proxy-authenticate : BASIC realm=x''\<rparr>) =
     Continue ((proxy_http_new False)
       \<lparr>header := ''proxy-authenticate : BASIC realm=x'', header_pos := 26, token := ''BASIC''\<rparr>)"
    using proxy_authenticate_scheme
      [of "(proxy_http_new False)\<lparr>header := ''proxy-authenticate : BASIC realm=x''\<rparr>"
          "[]" "''proxy-authenticate''" "'' ''" "'' ''" "''BASIC''" "'' realm=x''"]
    by (simp add: token_char_def is_whitespace_def is_separator_def stricmp_def tolower_def
        c_str_def)
  have c: "\<exists>s'. run example_socket (proxy_http_new True)
           [([], Pending),
            (''HTTP/1.1 407 Authenticate'' @ CRLF @ ''Proxy-Authenticate: Digest realm=x'' @ CRLF @
             CRLF @ ''X'', Pending)]
         = Some s' \<and>
         pn_error s' = Some (''HTTP proxy asked for unsupported authentication type '' @
                             [CHR 0x27] @ ''Digest'' @ [CHR 0x27]) \<and>
         crLine s' = 0 \<and>
         pn_output s' =
           ''CONNECT example.com:22 HTTP/1.1'' @ CRLF @ ''Host: example.com:22'' @ CRLF @ CRLF"
    apply (simp add: finished_def proxy_http_new_def proxy_http_process_queue_def
        request_eval example_socket_def)
    apply (simp add: after_request_def read_status_line_def read_line_eval strbuf_chomp_def)
    apply (simp add: parse_status_line_def scan_eval)
    apply (simp add: read_headers_def)
    apply (subst header_loop.simps)
    apply (simp add: read_line_eval strbuf_chomp_def)
    apply (simp add: process_header_def token_eval crStopV_def)
    done
  from a b c show ?thesis by blast
qed

subsection \<open>C7: success and permanent failure\<close>

text \<open>
  C7 says that, once headers and body are consumed, a status in 200--299 gives success
  and any other status but 407 gives a permanent failure whose message is built from
  the text of the response line that follows the status code.  The message the code
  builds starts at \<^verbatim>\<open>http_status_pos\<close>, which the \<^verbatim>\<open>%n\<close> of the scan sets before the status
  code is read: the message contains the status code itself.
\<close>

theorem failure_message_starts_at_status_counterexample:
  "pn_error (decide example_socket Pending
      (flow_state (parse_status_line
         ((proxy_http_new False)\<lparr>response := ''HTTP/1.1 404 Not Found''\<rparr>)))) =
     Some ''HTTP response 404 Not Found'' \<and>
   text_after_status
      (flow_state (parse_status_line
         ((proxy_http_new False)\<lparr>response := ''HTTP/1.1 404 Not Found''\<rparr>))) =
     '' Not Found'' \<and>
   pn_error (decide example_socket Pending
      (flow_state (parse_status_line
         ((proxy_http_new False)\<lparr>response := ''HTTP/1.1 404 Not Found''\<rparr>)))) \<noteq>
     Some (''HTTP response '' @
           text_after_status
             (flow_state (parse_status_line
                ((proxy_http_new False)\<lparr>response := ''HTTP/1.1 404 Not Found''\<rparr>))))"
  by (simp add: parse_status_line_def scan_eval decide_def crStopV_def text_after_status_def
      proxy_http_new_def)

text \<open>
  C7 as amended: a status in 200--299 gives success; any other status but 407 gives a
  permanent failure whose message is \<^verbatim>\<open>HTTP response\<close>, a space, and the text of the
  response line from the status code on (the status code and what follows it).  For a
  status line of the strict pattern whose three numbers are in the range of \<^verbatim>\<open>int\<close>, the
  status code is the number written and that text is its digits and the rest of the
  line.
\<close>

theorem status_code_outcome:
  "(200 \<le> http_status s \<and> http_status s < 300 \<longrightarrow>
      decide ps reply s = s\<lparr>pn_done := True, crLine := 0\<rparr>) \<and>
   ((http_status s < 200 \<or> 300 \<le> http_status s) \<and> http_status s \<noteq> 407 \<longrightarrow>
      decide ps reply s =
        s\<lparr>pn_error :=
            Some (''HTTP response '' @ c_str (drop (nat (http_status_pos s)) (response s))),
          crLine := 0\<rparr>) \<and>
   (response s = ''HTTP/'' @ majd @ ''.'' @ mind @ '' '' @ std @ rest \<and>
    majd \<noteq> [] \<and> list_all isdigit majd \<and> mind \<noteq> [] \<and> list_all isdigit mind \<and>
    std \<noteq> [] \<and> list_all isdigit std \<and> (rest = [] \<or> \<not> isdigit (hd rest)) \<and>
    digits_val majd < 2 ^ 31 \<and> digits_val mind < 2 ^ 31 \<and> digits_val std < 2 ^ 31 \<longrightarrow>
      http_status (flow_state (parse_status_line s)) = int (digits_val std) \<and>
      drop (nat (http_status_pos (flow_state (parse_status_line s))))
           (response (flow_state (parse_status_line s))) = std @ rest)"
proof -
  have "http_status (flow_state (parse_status_line s)) = int (digits_val std) \<and>
      drop (nat (http_status_pos (flow_state (parse_status_line s))))
           (response (flow_state (parse_status_line s))) = std @ rest"
    if "response s = ''HTTP/'' @ majd @ ''.'' @ mind @ '' '' @ std @ rest"
      "majd \<noteq> []" "list_all isdigit majd" "mind \<noteq> []" "list_all isdigit mind"
      "std \<noteq> []" "list_all isdigit std" "rest = [] \<or> \<not> isdigit (hd rest)"
      and bound: "digits_val std < 2 ^ 31"
  proof -
    have st: "scanf_int_store (int (digits_val std)) = int (digits_val std)"
      using bound by (intro scanf_int_store_in_range) simp_all
    let ?pre = "''HTTP/'' @ majd @ ''.'' @ mind @ '' ''"
    have gen: "\<And>(p::string) x. drop (length p) (p @ x) = x" by simp
    have "drop (length ?pre) (?pre @ std @ rest) = std @ rest"
      by (rule gen)
    moreover have "nat (int (7 + length majd + length mind)) = length ?pre" by simp
    moreover have "response s = ?pre @ std @ rest" using that(1) by simp
    ultimately have "drop (nat (int (7 + length majd + length mind))) (response s) = std @ rest"
      by (simp only:)
    then show ?thesis
      by (simp add: parse_status_line_strict[OF that(1-8)] st)
  qed
  then show ?thesis
    by (auto simp: decide_def crStopV_def)
qed

theorem status_code_outcome_witness:
  "pn_done (decide example_socket Pending ((proxy_http_new False)\<lparr>http_status := 204\<rparr>)) \<and>
   pn_error (decide example_socket Pending
      ((proxy_http_new False)\<lparr>response := ''HTTP/1.1 404 Not Found'', http_status_pos := 9,
         http_status := 404\<rparr>)) = Some ''HTTP response 404 Not Found'' \<and>
   http_status (flow_state (parse_status_line
      ((proxy_http_new False)\<lparr>response := ''HTTP/1.1 404 Not Found''\<rparr>))) = 404"
proof -
  let ?a = "(proxy_http_new False)\<lparr>http_status := 204\<rparr>"
  let ?b = "(proxy_http_new False)\<lparr>response := ''HTTP/1.1 404 Not Found'', http_status_pos := 9,
         http_status := 404\<rparr>"
  let ?c = "(proxy_http_new False)\<lparr>response := ''HTTP/1.1 404 Not Found''\<rparr>"
  have a: "pn_done (decide example_socket Pending ?a)"
    using status_code_outcome[where s = ?a and ps = example_socket and reply = Pending,
        THEN conjunct1]
    by (simp add: proxy_http_new_def)
  have b: "pn_error (decide example_socket Pending ?b) = Some ''HTTP response 404 Not Found''"
    using status_code_outcome[where s = ?b and ps = example_socket and reply = Pending,
        THEN conjunct2, THEN conjunct1]
    by (simp add: proxy_http_new_def c_str_def)
  have c: "http_status (flow_state (parse_status_line ?c)) = 404"
    using status_code_outcome[where s = ?c and majd = "''1''" and mind = "''1''"
        and std = "''404''" and rest = "'' Not Found''", THEN conjunct2, THEN conjunct2]
    by (simp add: proxy_http_new_def isdigit_def digits_val_def digit_val_def)
  from a b c show ?thesis by blast
qed

subsection \<open>C8: the status line\<close>

text \<open>
  C8 says that the first line of a response is accepted exactly when it matches
  \<^verbatim>\<open>HTTP/<major>.<minor> <3-digit-status>\<close> followed by a reason phrase, and that any
  other line ends the negotiation with the error that the response is malformed.  The
  code accepts what \<^verbatim>\<open>sscanf\<close> with \<^verbatim>\<open>"HTTP/%d.%d %n%d"\<close> converts, which is more: a status
  of two digits or of four, for instance.
\<close>

theorem status_line_digits_counterexample:
  "\<not> matches_status_pattern ''HTTP/1.1 20 OK'' \<and>
   parse_status_line ((proxy_http_new False)\<lparr>response := ''HTTP/1.1 20 OK''\<rparr>) =
     Continue ((proxy_http_new False)
       \<lparr>response := ''HTTP/1.1 20 OK'', http_status_pos := 9, http_status := 20\<rparr>) \<and>
   \<not> matches_status_pattern ''HTTP/1.1 2000 OK'' \<and>
   parse_status_line ((proxy_http_new False)\<lparr>response := ''HTTP/1.1 2000 OK''\<rparr>) =
     Continue ((proxy_http_new False)
       \<lparr>response := ''HTTP/1.1 2000 OK'', http_status_pos := 9, http_status := 2000\<rparr>)"
  by (simp add: matches_status_pattern_def parse_status_line_def scan_eval proxy_http_new_def)

text \<open>
  C8 as amended: every first line that matches the pattern is accepted, with the three
  digits as status code; a line is accepted exactly when the scan converts all three
  numbers, and otherwise (in particular when it does not start with \<^verbatim>\<open>HTTP/\<close>) the
  negotiation ends with the error that the response is absent or malformed, the status
  code being left as it was.
\<close>

theorem status_line_acceptance:
  "(matches_status_pattern (response s) \<longrightarrow>
      (\<exists>s2. parse_status_line s = Continue s2 \<and> pn_error s2 = pn_error s \<and>
            crLine s2 = crLine s \<and>
            length (takeWhile isdigit (drop (nat (http_status_pos s2)) (response s))) = 3 \<and>
            http_status s2 =
              int (digits_val (takeWhile isdigit (drop (nat (http_status_pos s2)) (response s)))))) \<and>
   ((\<exists>s2. parse_status_line s = Continue s2) = (fst (sscanf_status_line s) = 3)) \<and>
   (parse_status_line s = Return s' \<longrightarrow>
      fst (sscanf_status_line s) < 3 \<and>
      pn_error s' = Some ''HTTP response was absent or malformed'' \<and> crLine s' = 0 \<and>
      http_status s' = http_status s \<and> pn_output s' = pn_output s) \<and>
   (take 5 (c_str (response s)) \<noteq> ''HTTP/'' \<longrightarrow>
      parse_status_line s =
        Return (s\<lparr>pn_error := Some ''HTTP response was absent or malformed'', crLine := 0\<rparr>))"
proof -
  have a: "\<exists>s2. parse_status_line s = Continue s2 \<and> pn_error s2 = pn_error s \<and>
            crLine s2 = crLine s \<and>
            length (takeWhile isdigit (drop (nat (http_status_pos s2)) (response s))) = 3 \<and>
            http_status s2 =
              int (digits_val (takeWhile isdigit (drop (nat (http_status_pos s2)) (response s))))"
    if m: "matches_status_pattern (response s)"
  proof -
    from matches_status_pattern_shape[OF m] obtain majd mind std rest where
      sh: "response s = ''HTTP/'' @ majd @ ''.'' @ mind @ '' '' @ std @ rest"
        "majd \<noteq> []" "list_all isdigit majd" "mind \<noteq> []" "list_all isdigit mind"
        "list_all isdigit std" "rest = [] \<or> \<not> isdigit (hd rest)"
      and l3: "length std = 3"
      by blast
    from l3 have ne: "std \<noteq> []" by auto
    let ?pre = "''HTTP/'' @ majd @ ''.'' @ mind @ '' ''"
    let ?s2 = "s\<lparr>http_status_pos := int (7 + length majd + length mind),
                  http_status := int (digits_val std)\<rparr>"
    have "digits_val std < 1000" using l3 sh(6) by (rule digits_val_three)
    then have "scanf_int_store (int (digits_val std)) = int (digits_val std)"
      by (intro scanf_int_store_in_range) simp_all
    then have p: "parse_status_line s = Continue ?s2"
      using parse_status_line_strict[OF sh(1,2,3,4,5) ne sh(6,7)] by simp
    have gen: "\<And>(p::string) x. drop (length p) (p @ x) = x" by simp
    have "drop (length ?pre) (?pre @ std @ rest) = std @ rest" by (rule gen)
    moreover have "nat (int (7 + length majd + length mind)) = length ?pre" by simp
    moreover have "response s = ?pre @ std @ rest" using sh(1) by simp
    ultimately have d: "drop (nat (http_status_pos ?s2)) (response s) = std @ rest"
      by simp
    have tw: "takeWhile isdigit (std @ rest) = std"
      using takeWhile_dropWhile_run[OF sh(6,7)] by simp
    have "pn_error ?s2 = pn_error s \<and> crLine ?s2 = crLine s \<and>
            length (takeWhile isdigit (drop (nat (http_status_pos ?s2)) (response s))) = 3 \<and>
            http_status ?s2 =
              int (digits_val (takeWhile isdigit (drop (nat (http_status_pos ?s2)) (response s))))"
      unfolding d tw using l3 by simp
    with p show ?thesis by blast
  qed
  have n: "fst (sscanf_status_line s) = 0 \<or> fst (sscanf_status_line s) = 1 \<or>
           fst (sscanf_status_line s) = 2 \<or> fst (sscanf_status_line s) = 3"
    by (simp add: sscanf_status_line_def Let_def split: option.splits prod.splits)
  have st: "http_status (snd (snd (snd (sscanf_status_line s)))) = http_status s \<and>
            pn_output (snd (snd (snd (sscanf_status_line s)))) = pn_output s"
    if "fst (sscanf_status_line s) < 3"
    using that
    by (auto simp: sscanf_status_line_def Let_def split: option.splits prod.splits if_splits)
  have b: "(\<exists>s2. parse_status_line s = Continue s2) = (fst (sscanf_status_line s) = 3)"
    using n by (auto simp: parse_status_line_def case_prod_beta Let_def)
  have c: "fst (sscanf_status_line s) < 3 \<and>
      pn_error s' = Some ''HTTP response was absent or malformed'' \<and> crLine s' = 0 \<and>
      http_status s' = http_status s \<and> pn_output s' = pn_output s"
    if "parse_status_line s = Return s'"
    using that st by (auto simp: parse_status_line_def case_prod_beta Let_def crStopV_def
        split: if_splits)
  have d: "parse_status_line s =
        Return (s\<lparr>pn_error := Some ''HTTP response was absent or malformed'', crLine := 0\<rparr>)"
    if "take 5 (c_str (response s)) \<noteq> ''HTTP/''"
    using that by (simp add: parse_status_line_def sscanf_status_line_def crStopV_def)
  from a b c d show ?thesis by blast
qed

theorem status_line_acceptance_witness:
  "parse_status_line ((proxy_http_new False)\<lparr>response := ''HTTP/1.1 200 OK''\<rparr>) =
     Continue ((proxy_http_new False)
       \<lparr>response := ''HTTP/1.1 200 OK'', http_status_pos := 9, http_status := 200\<rparr>) \<and>
   parse_status_line ((proxy_http_new False)\<lparr>response := ''SSH-2.0-OpenSSH'', http_status := 407\<rparr>) =
     Return ((proxy_http_new False)
       \<lparr>response := ''SSH-2.0-OpenSSH'', http_status := 407,
        pn_error := Some ''HTTP response was absent or malformed''\<rparr>) \<and>
   fst (sscanf_status_line
      ((proxy_http_new False)\<lparr>response := ''SSH-2.0-OpenSSH'', http_status := 407\<rparr>)) < 3"
proof -
  let ?a = "(proxy_http_new False)\<lparr>response := ''HTTP/1.1 200 OK''\<rparr>"
  let ?b = "(proxy_http_new False)\<lparr>response := ''SSH-2.0-OpenSSH'', http_status := 407\<rparr>"
  let ?b' = "(proxy_http_new False)
       \<lparr>response := ''SSH-2.0-OpenSSH'', http_status := 407,
        pn_error := Some ''HTTP response was absent or malformed''\<rparr>"
  have m: "matches_status_pattern (response ?a)"
    by (simp add: matches_status_pattern_def isdigit_def)
  have "(\<exists>s2. parse_status_line ?a = Continue s2) = (fst (sscanf_status_line ?a) = 3)"
    using status_line_acceptance[where s = ?a] by blast
  with m status_line_acceptance[where s = ?a]
  have "fst (sscanf_status_line ?a) = 3" by blast
  then have a: "parse_status_line ?a =
     Continue ((proxy_http_new False)
       \<lparr>response := ''HTTP/1.1 200 OK'', http_status_pos := 9, http_status := 200\<rparr>)"
    by (simp add: parse_status_line_def scan_eval proxy_http_new_def)
  have t5: "take 5 (c_str (response ?b)) \<noteq> ''HTTP/''" by (simp add: c_str_def)
  with status_line_acceptance[where s = ?b]
  have "parse_status_line ?b =
        Return (?b\<lparr>pn_error := Some ''HTTP response was absent or malformed'', crLine := 0\<rparr>)"
    by blast
  then have b: "parse_status_line ?b = Return ?b'" by (simp add: proxy_http_new_def)
  with status_line_acceptance[where s = ?b and s' = ?b']
  have c: "fst (sscanf_status_line ?b) < 3" by blast
  from a b c show ?thesis by blast
qed

subsection \<open>C9: Content-Length\<close>

text \<open>
  C9 says that the token after the colon of a \<^verbatim>\<open>Content-Length\<close> header is parsed as an
  unsigned base-10 integer, and that the stored length is 0 for every token that fails
  to parse as one.  The code converts the token with \<^verbatim>\<open>strtoumax\<close>, which converts the
  longest prefix it can and accepts a sign: the token \<^verbatim>\<open>12abc\<close> stores 12 and the token
  \<^verbatim>\<open>-1\<close> stores \<open>2\<^sup>6\<^sup>4 - 1\<close>, although neither is an unsigned base-10 integer.
\<close>

theorem content_length_partial_number_counterexample:
  "parse_unsigned ''12abc'' = None \<and>
   content_length (flow_state (process_header
      ((proxy_http_new False)\<lparr>header := ''Content-Length: 12abc''\<rparr>))) = 12 \<and>
   parse_unsigned ''-1'' = None \<and>
   content_length (flow_state (process_header
      ((proxy_http_new False)\<lparr>header := ''Content-Length: -1''\<rparr>))) = 18446744073709551615"
  by (simp add: parse_unsigned_def process_header_def token_eval strtoumax_def isdigit_def
      isspace_def digits_val_def digit_val_def proxy_http_new_def)

text \<open>
  C9 as amended: for a \<^verbatim>\<open>Content-Length\<close> header line with a token after the colon, the
  stored length is what \<^verbatim>\<open>strtoumax\<close> makes of the token in base 10, always below
  \<open>2\<^sup>6\<^sup>4\<close>: the value of the token's leading run of decimal digits when the token
  starts with a digit (so the token's own value when it is all digits), as long as
  that value is below \<open>2\<^sup>6\<^sup>4\<close>; and 0 when the token starts with a byte that is
  neither a digit, a sign nor C white space.  Nothing is reported as an error and the
  header loop goes on.
\<close>

theorem content_length_strtoumax:
  assumes "header s = ws0 @ fname @ ws1 @ '':'' @ ws2 @ tok @ rest"
    and "list_all is_whitespace ws0" "list_all is_whitespace ws1" "list_all is_whitespace ws2"
    and "fname \<noteq> []" "list_all token_char fname" "stricmp fname ''Content-Length'' = 0"
    and "tok \<noteq> []" "list_all token_char tok" "rest = [] \<or> \<not> token_char (hd rest)"
  shows "process_header s =
           Continue
             (s\<lparr>header_pos := length (ws0 @ fname @ ws1 @ '':'' @ ws2 @ tok),
                token := tok, content_length := strtoumax tok\<rparr>) \<and>
         strtoumax tok < 2 ^ 64 \<and>
         (tok = ds @ r \<and> ds \<noteq> [] \<and> list_all isdigit ds \<and> (r = [] \<or> \<not> isdigit (hd r)) \<and>
          digits_val ds < 2 ^ 64 \<longrightarrow> strtoumax tok = digits_val ds) \<and>
         (\<not> isdigit (hd tok) \<and> \<not> isspace (hd tok) \<and> hd tok \<noteq> CHR ''-'' \<and> hd tok \<noteq> CHR ''+'' \<longrightarrow>
          strtoumax tok = 0)"
proof -
  note tk = header_line_tokens[OF assms(1,2,3,4,5,6,8,9,10)]
  have k: "header_kind fname = HDR_CONTENT_LENGTH"
    using assms(7) by (rule header_kind_content_length)
  have "process_header s =
           Continue
             (s\<lparr>header_pos := length (ws0 @ fname @ ws1 @ '':'' @ ws2 @ tok),
                token := tok, content_length := strtoumax tok\<rparr>)"
    unfolding process_header_def Let_def tk(1) prod.case
    by (simp add: k tk(2) tk(3))
  then show ?thesis
    using strtoumax_digit_prefix[of ds r] strtoumax_no_digit[of tok] strtoumax_bound[of tok]
    by blast
qed

theorem content_length_strtoumax_witness:
  "process_header ((proxy_http_new False)\<lparr>header := ''Content-Length: 37''\<rparr>) =
     Continue ((proxy_http_new False)
       \<lparr>header := ''Content-Length: 37'', header_pos := 18, token := ''37'',
        content_length := 37\<rparr>) \<and>
   process_header ((proxy_http_new False)\<lparr>header := ''content-length:x1'', content_length := 5\<rparr>) =
     Continue ((proxy_http_new False)
       \<lparr>header := ''content-length:x1'', header_pos := 17, token := ''x1'',
        content_length := 0\<rparr>)"
proof -
  have a: "process_header ((proxy_http_new False)\<lparr>header := ''Content-Length: 37''\<rparr>) =
     Continue ((proxy_http_new False)
       \<lparr>header := ''Content-Length: 37'', header_pos := 18, token := ''37'',
        content_length := 37\<rparr>)"
    using content_length_strtoumax
      [of "(proxy_http_new False)\<lparr>header := ''Content-Length: 37''\<rparr>"
          "[]" "''Content-Length''" "[]" "'' ''" "''37''" "[]" "''37''" "[]"]
    by (simp add: token_char_def is_whitespace_def is_separator_def stricmp_def tolower_def
        c_str_def isdigit_def digits_val_def digit_val_def)
  have b: "process_header ((proxy_http_new False)\<lparr>header := ''content-length:x1'', content_length := 5\<rparr>) =
     Continue ((proxy_http_new False)
       \<lparr>header := ''content-length:x1'', header_pos := 17, token := ''x1'',
        content_length := 0\<rparr>)"
    using content_length_strtoumax
      [of "(proxy_http_new False)\<lparr>header := ''content-length:x1'', content_length := 5\<rparr>"
          "[]" "''content-length''" "[]" "[]" "''x1''" "[]" "''x''" "''1''"]
    by (simp add: token_char_def is_whitespace_def is_separator_def stricmp_def tolower_def
        c_str_def isdigit_def isspace_def)
  from a b show ?thesis by blast
qed

subsection \<open>C10: no configured credentials\<close>

text \<open>
  C10: when the configured username and password are both empty, the flag for pending
  configured credentials is never set, so a first 407 on a connection that stays open
  does not resend automatically: the user is prompted, or, without an interactor, the
  negotiation ends with the error that authentication is required but cannot be given.
\<close>

theorem no_configured_credentials_no_automatic_retry:
  "(c_str (conf_proxy_username ps) = [] \<and> c_str (conf_proxy_password ps) = [] \<longrightarrow>
      \<not> try_auth_from_conf (init_from_conf ps (proxy_http_new itr)) \<and>
      (run ps (proxy_http_new itr) events = Some s' \<longrightarrow> \<not> try_auth_from_conf s')) \<and>
   (http_status s = 407 \<and> \<not> connection_close s \<and> \<not> try_auth_from_conf s \<longrightarrow>
      decide ps reply s =
        (if pn_itr s then prompt_loop ps reply (make_prompts s)
         else s\<lparr>pn_error := Some ''HTTP proxy requested authentication which we do not have'',
                crLine := 0\<rparr>) \<and>
      (pn_itr s \<longrightarrow>
         decide ps Pending s = (make_prompts s)\<lparr>crLine := 357\<rparr> \<and>
         prompts (make_prompts s) \<noteq> None \<and>
         pn_output (decide ps Pending s) = pn_output s))"
proof -
  have run0: "\<not> try_auth_from_conf s'"
    if e: "c_str (conf_proxy_username ps) = []" "c_str (conf_proxy_password ps) = []"
      and r: "run ps (proxy_http_new itr) events = Some s'"
  proof (cases events)
    case Nil
    with r show ?thesis by (auto simp: proxy_http_new_def)
  next
    case (Cons ev evs)
    obtain bytes rp where ev: "ev = (bytes, rp)" by (cases ev)
    let ?s1 = "send_request ps (init_from_conf ps ((proxy_http_new itr)\<lparr>pn_input := bytes\<rparr>))"
    from r Cons ev have r1: "run ps ?s1 evs = Some s'"
      by (simp add: finished_def proxy_http_new_def proxy_http_process_queue_def)
    have "suspended ?s1" by (simp add: suspended_def send_request_flags)
    moreover have "\<not> try_auth_from_conf ?s1"
      using e by (simp add: send_request_flags init_from_conf_def proxy_http_new_def)
    ultimately show ?thesis
      using run_keeps[OF _ r1] by (auto simp: call_keeps_def)
  qed
  have i: "c_str (conf_proxy_username ps) = [] \<and> c_str (conf_proxy_password ps) = [] \<longrightarrow>
      \<not> try_auth_from_conf (init_from_conf ps (proxy_http_new itr))"
    by (simp add: init_from_conf_def proxy_http_new_def)
  have mp: "prompts (make_prompts s) \<noteq> None \<and> pn_output (make_prompts s) = pn_output s"
    by (simp add: make_prompts_def add_prompt_def Let_def)
  show ?thesis
    using run0 i mp by (auto simp: decide_def crStopV_def prompt_loop_def)
qed

theorem no_configured_credentials_no_automatic_retry_witness:
  "(\<exists>s'. run anonymous_socket (proxy_http_new False)
           [([], Pending), (''HTTP/1.1 407 Authenticate'' @ CRLF @ CRLF @ ''X'', Pending)]
         = Some s' \<and>
         \<not> try_auth_from_conf s' \<and>
         pn_error s' = Some ''HTTP proxy requested authentication which we do not have'' \<and>
         pn_output s' =
           ''CONNECT example.com:22 HTTP/1.1'' @ CRLF @ ''Host: example.com:22'' @ CRLF @ CRLF) \<and>
   crLine (decide anonymous_socket Pending ((proxy_http_new True)\<lparr>http_status := 407\<rparr>)) = 357 \<and>
   pn_error (decide anonymous_socket Pending ((proxy_http_new False)\<lparr>http_status := 407\<rparr>)) =
     Some ''HTTP proxy requested authentication which we do not have''"
proof -
  let ?ev = "[([], Pending), (''HTTP/1.1 407 Authenticate'' @ CRLF @ CRLF @ ''X'', Pending)]"
  let ?a = "(proxy_http_new True)\<lparr>http_status := 407\<rparr>"
  let ?b = "(proxy_http_new False)\<lparr>http_status := 407\<rparr>"
  have "\<exists>s'. run anonymous_socket (proxy_http_new False) ?ev = Some s' \<and>
         pn_error s' = Some ''HTTP proxy requested authentication which we do not have'' \<and>
         pn_output s' =
           ''CONNECT example.com:22 HTTP/1.1'' @ CRLF @ ''Host: example.com:22'' @ CRLF @ CRLF"
    apply (simp add: finished_def proxy_http_new_def proxy_http_process_queue_def
        request_eval anonymous_socket_def)
    apply (simp add: after_request_def read_status_line_def read_line_eval strbuf_chomp_def)
    apply (simp add: parse_status_line_def scan_eval)
    apply (simp add: read_headers_def)
    apply (subst header_loop.simps)
    apply (simp add: read_line_eval strbuf_chomp_def)
    apply (simp add: process_header_def token_eval)
    apply (simp add: read_body_def bufchain_try_consume_def decide_def crStopV_def)
    done
  then obtain s' where r: "run anonymous_socket (proxy_http_new False) ?ev = Some s'"
    and e: "pn_error s' = Some ''HTTP proxy requested authentication which we do not have''"
    and out: "pn_output s' =
           ''CONNECT example.com:22 HTTP/1.1'' @ CRLF @ ''Host: example.com:22'' @ CRLF @ CRLF"
    by blast
  have emp: "c_str (conf_proxy_username anonymous_socket) = [] \<and>
       c_str (conf_proxy_password anonymous_socket) = []"
    by (simp add: anonymous_socket_def c_str_def)
  with r no_configured_credentials_no_automatic_retry[of anonymous_socket False ?ev s']
  have f: "\<not> try_auth_from_conf s'" by blast
  have a: "crLine (decide anonymous_socket Pending ?a) = 357"
    using no_configured_credentials_no_automatic_retry
            [where s = ?a and ps = anonymous_socket and reply = Pending, THEN conjunct2]
    by (simp add: proxy_http_new_def prompt_loop_def)
  have b: "pn_error (decide anonymous_socket Pending ?b) =
     Some ''HTTP proxy requested authentication which we do not have''"
    using no_configured_credentials_no_automatic_retry
            [where s = ?b and ps = anonymous_socket and reply = Pending, THEN conjunct2]
    by (simp add: proxy_http_new_def)
  from r e out f a b show ?thesis by blast
qed

end
